theory Spec2Isabelle
  imports Main "HOL-Library.Word"
begin

section \<open>The mount command of LiteFS (cmd/litefs/mount_linux.go)\<close>

text \<open>
  The file orchestrates collaborators (store, leaser, HTTP server, proxy server, FUSE
  file system, subprocesses). Each call into a collaborator is an \<^emph>\<open>event\<close> of a
  trace; what the collaborator answers is read from an environment record, and depends
  on the arguments of the call only. Every method of \<open>MountCommand\<close> becomes a function
  from the state to the events it performs, the new state and the Go \<open>error\<close> it
  returns (\<open>None\<close> is \<open>nil\<close>).
\<close>

subsection \<open>Values\<close>

text \<open>\<open>time.Duration\<close> is an \<open>int64\<close> count of nanoseconds.\<close>

type_synonym duration = "64 word"

definition Nanosecond :: duration where "Nanosecond = 1"
definition Microsecond :: duration where "Microsecond = 1000 * Nanosecond"
definition Millisecond :: duration where "Millisecond = 1000 * Microsecond"
definition Second :: duration where "Second = 1000 * Millisecond"

text \<open>
  The errors built in this file, one constructor per \<open>fmt.Errorf\<close> site. \<open>Wrapped p e\<close> is
  \<open>fmt.Errorf(p + ": %w", e)\<close>, \<open>Foreign m\<close> is an error value handed over by a
  collaborator or a context cause, and \<open>RuntimePanic\<close> is a Go run-time panic, which
  unwinds through every caller unchanged.
\<close>

datatype error =
    FuseDirectoryRequired
  | DataDirectoryRequired
  | SameDirectory
  | InvalidLeaseTypeGot string
  | InvalidLeaseType string
  | CannotParsePassthrough string
  | CannotOpenFileSystem error
  | CannotParseExecCommand nat error
  | TimedOutWaitingForPromotion
  | Wrapped string error
  | Foreign string
  | RuntimePanic string

definition wrapf :: "string \<Rightarrow> error \<Rightarrow> error" where
  "wrapf p e = (case e of RuntimePanic m \<Rightarrow> RuntimePanic m | _ \<Rightarrow> Wrapped p e)"

text \<open>\<open>%d\<close> of a Go \<open>int\<close>: decimal digits, with a minus sign below zero.\<close>

definition digit_char :: "nat \<Rightarrow> char" where
  "digit_char d = ''0123456789'' ! d"

fun nat_digits :: "nat \<Rightarrow> string" where
  "nat_digits n =
     (if n < 10 then [digit_char n] else nat_digits (n div 10) @ [digit_char (n mod 10)])"

declare nat_digits.simps [simp del]

definition format_d :: "int \<Rightarrow> string" where
  "format_d i = (if i < 0 then CHR ''-'' # nat_digits (nat (- i)) else nat_digits (nat i))"

subsection \<open>Configuration\<close>

text \<open>
  The \<open>Config\<close> type is declared in another file of the package; these records hold the
  fields that the mount command reads, under their Go paths
  (\<open>c.Config.Lease.Consul.TTL\<close> is \<open>Consul_TTL (Lease_Consul (Lease (Config c)))\<close>).
\<close>

record FUSEConfig =
  FUSE_Dir :: string
  FUSE_AllowOther :: bool
  FUSE_Debug :: bool

record DataConfig =
  Data_Dir :: string
  Data_Compress :: bool
  Data_Retention :: duration
  Data_RetentionMonitorInterval :: duration

record ConsulConfig =
  Consul_URL :: string
  Consul_Key :: string
  Consul_TTL :: duration
  Consul_LockDelay :: duration

record LeaseConfig =
  Lease_Type :: string
  Lease_Candidate :: bool
  Lease_Hostname :: string
  Lease_AdvertiseURL :: string
  Lease_Promote :: bool
  Lease_ReconnectDelay :: duration
  Lease_DemoteDelay :: duration
  Lease_Consul :: ConsulConfig

record HTTPConfig =
  HTTP_Addr :: string

record ProxyConfig =
  Proxy_Target :: string
  Proxy_DB :: string
  Proxy_Addr :: string
  Proxy_Debug :: bool
  Proxy_Passthrough :: "string list"

record ExecConfig =
  Cmd :: string
  IfCandidate :: bool

record Config =
  FUSE :: FUSEConfig
  Data :: DataConfig
  Lease :: LeaseConfig
  HTTP :: HTTPConfig
  Proxy :: ProxyConfig
  Exec :: "ExecConfig list"
  SkipSync :: bool
  StrictVerify :: bool

subsection \<open>The collaborators' objects, as far as this file sets their fields\<close>

record ConsulLeaser =
  leaser_url :: string
  leaser_key :: string
  leaser_hostname :: string
  leaser_advertiseURL :: string
  TTL :: duration
  LockDelay :: duration

datatype Leaser =
    StaticLeaser bool string string
  | ConsulLeaserOf ConsulLeaser

record FileSystem =
  fs_path :: string
  fs_AllowOther :: bool
  fs_Debug :: bool

record Store =
  store_path :: string
  store_candidate :: bool
  store_StrictVerify :: bool
  store_Compress :: bool
  store_Retention :: duration
  store_RetentionMonitorInterval :: duration
  store_ReconnectDelay :: duration
  store_DemoteDelay :: duration
  store_Leaser :: "Leaser option"
  store_Invalidator :: "FileSystem option"

record Server =
  server_addr :: string

record ProxyServer =
  proxy_Target :: string
  proxy_DBName :: string
  proxy_Addr :: string
  proxy_Debug :: bool
  proxy_Passthroughs :: "string list"

record ExecCmd =
  cmd_name :: string
  cmd_args :: "string list"

text \<open>
  \<open>MountCommand\<close>: a pointer field is an option (\<open>None\<close> is \<open>nil\<close>);
  \<open>AdvertiseURLFn\<close> is \<open>None\<close> when the function is \<open>nil\<close> and \<open>Some u\<close> when it is
  a function that returns \<open>u\<close>.
\<close>

record MountCommand =
  cmd :: "ExecCmd option"
  Config :: Config
  Store :: "Store option"
  Leaser :: "Leaser option"
  FileSystem :: "FileSystem option"
  HTTPServer :: "Server option"
  ProxyServer :: "ProxyServer option"
  AdvertiseURLFn :: "string option"

subsection \<open>Validate\<close>

definition LeaseTypeConsul :: string where "LeaseTypeConsul = ''consul''"
definition LeaseTypeStatic :: string where "LeaseTypeStatic = ''static''"

definition IsValidLeaseType :: "string \<Rightarrow> bool" where
  "IsValidLeaseType s = (if s = LeaseTypeConsul \<or> s = LeaseTypeStatic then True else False)"

definition Validate :: "MountCommand \<Rightarrow> error option" where
  "Validate c =
     (if FUSE_Dir (FUSE (Config c)) = [] then Some FuseDirectoryRequired
      else if Data_Dir (Data (Config c)) = [] then Some DataDirectoryRequired
      else if FUSE_Dir (FUSE (Config c)) = Data_Dir (Data (Config c)) then Some SameDirectory
      else if \<not> IsValidLeaseType (Lease_Type (Lease (Config c)))
        then Some (InvalidLeaseTypeGot (Lease_Type (Lease (Config c))))
      else None)"

subsection \<open>Events, environment and state\<close>

datatype log_msg =
    LogUsingConsul
  | LogUsingStatic bool string string
  | LogMounted string
  | LogHTTPListening
  | LogSkippingSync
  | LogWaiting
  | LogConnected
  | LogAutoPromote
  | LogSkipAutoPromote
  | LogProxyListening
  | LogInitConsul string string string string
  | LogNoProxyTarget
  | LogSkipCommand string "string list"
  | LogExecuting string "string list"
  | LogStarting string "string list"
  | LogAlreadyPrimary

datatype ticker_id = TickerT | TimeoutT

text \<open>The calls that leave this file, in the order in which they are made.\<close>

datatype event =
    EvPrintVersion
  | Log log_msg
  | EvServerListen
  | EvServerServe
  | EvProxyListen
  | EvProxyServe
  | EvOsHostname
  | EvLeaserOpen ConsulLeaser
  | EvStoreOpen
  | EvExpvarPublish
  | EvMount FileSystem
  | EvSelectCtxDone
  | EvSelectReady
  | EvPrimaryInfo
  | EvHandoff string "64 word"
  | EvNewTicker ticker_id duration
  | EvTickerStop ticker_id
  | EvRecvTimeout
  | EvRecvTick
  | EvIsPrimary bool
  | EvCmdRun string "string list"
  | EvCmdStart string "string list"
  | EvGoWait

text \<open>
  What the select statement of \<open>Run\<close> receives: the context's \<open>Done\<close> channel (with
  \<open>context.Cause(ctx)\<close>) or the store's \<open>ReadyCh\<close>.
\<close>

datatype select_outcome = CtxDone error | ReadyCh

text \<open>
  What happens while \<open>promote\<close> waits: the 1 ms ticker delivers and \<open>IsPrimary()\<close> then
  answers \<open>b\<close> (\<open>Tick b\<close>), or the context is canceled with a cause. The 10 s timeout
  ticker delivers when the list is used up.
\<close>

datatype wait_event = Tick bool | CtxCanceled error

record env =
  server_Listen :: "error option"
  server_Port :: int
  http_CompileMatch :: "string \<Rightarrow> error option"
  proxy_Listen :: "error option"
  os_Hostname :: "error + string"
  consul_DefaultTTL :: duration
  consul_DefaultLockDelay :: duration
  leaser_Open :: "error option"
  store_Open :: "error option"
  store_ID :: "64 word"
  store_PrimaryInfo :: "bool \<times> string"
  fs_Mount :: "error option"
  run_select :: select_outcome
  client_Handoff :: "error option"
  promote_timeline :: "wait_event list"
  shellwords_Parse :: "string \<Rightarrow> error + string list"
  cmd_Run :: "string \<Rightarrow> string list \<Rightarrow> error option"
  cmd_Start :: "string \<Rightarrow> string list \<Rightarrow> error option"

text \<open>The command and the process-wide \<open>expvarOnce\<close> (\<open>True\<close> once \<open>Do\<close> has run).\<close>

record state =
  mc :: MountCommand
  expvarOnce :: bool

type_synonym act = "state \<Rightarrow> event list \<times> state \<times> error option"

definition emit :: "event list \<Rightarrow> act" where
  "emit es s = (es, s, None)"

text \<open>\<open>seq f g\<close>: run \<open>f\<close>; return its error if it has one, else go on with \<open>g\<close>.\<close>

definition seq :: "act \<Rightarrow> act \<Rightarrow> act" where
  "seq f g s =
     (case f s of
        (t, s', Some e) \<Rightarrow> (t, s', Some e)
      | (t, s', None) \<Rightarrow> (case g s' of (t', s'', r) \<Rightarrow> (t @ t', s'', r)))"

text \<open>\<open>wrap p f\<close>: \<open>if err := f(); err != nil { return fmt.Errorf(p + ": %w", err) }\<close>.\<close>

definition wrap :: "string \<Rightarrow> act \<Rightarrow> act" where
  "wrap p f s = (case f s of (t, s', r) \<Rightarrow> (t, s', map_option (wrapf p) r))"

definition nil_dereference :: error where
  "nil_dereference = RuntimePanic ''invalid memory address or nil pointer dereference''"

definition index_out_of_range :: error where
  "index_out_of_range = RuntimePanic ''index out of range''"

subsection \<open>initStore, initHTTPServer, initProxyServer\<close>

text \<open>
  Modelled from the spec: \<open>litefs.NewStore(path, candidate)\<close> and \<open>Store.Candidate()\<close> are
  not in this file; the spec gives \<open>Candidate() bool\<close> as static, from configuration, so
  the store keeps the flag it was built with and \<open>Candidate\<close> reads it.
\<close>

definition NewStore :: "string \<Rightarrow> bool \<Rightarrow> Store" where
  "NewStore path candidate =
     \<lparr>store_path = path, store_candidate = candidate, store_StrictVerify = False,
      store_Compress = False, store_Retention = 0, store_RetentionMonitorInterval = 0,
      store_ReconnectDelay = 0, store_DemoteDelay = 0, store_Leaser = None,
      store_Invalidator = None\<rparr>"

definition Candidate :: "Store \<Rightarrow> bool" where
  "Candidate st = store_candidate st"

definition initStore :: "env \<Rightarrow> act" where
  "initStore env s =
     (let cfg = Config (mc s);
          st = (NewStore (Data_Dir (Data cfg)) (Lease_Candidate (Lease cfg)))
                 \<lparr>store_StrictVerify := StrictVerify cfg,
                  store_Compress := Data_Compress (Data cfg),
                  store_Retention := Data_Retention (Data cfg),
                  store_RetentionMonitorInterval := Data_RetentionMonitorInterval (Data cfg),
                  store_ReconnectDelay := Lease_ReconnectDelay (Lease cfg),
                  store_DemoteDelay := Lease_DemoteDelay (Lease cfg)\<rparr>
      in ([], s\<lparr>mc := (mc s)\<lparr>Store := Some st\<rparr>\<rparr>, None))"

definition initHTTPServer :: "env \<Rightarrow> act" where
  "initHTTPServer env s =
     (let server = \<lparr>server_addr = HTTP_Addr (HTTP (Config (mc s)))\<rparr>
      in case server_Listen env of
           Some e \<Rightarrow> ([EvServerListen], s, Some (wrapf ''cannot open http server'' e))
         | None \<Rightarrow> ([EvServerListen], s\<lparr>mc := (mc s)\<lparr>HTTPServer := Some server\<rparr>\<rparr>, None))"

text \<open>The loop over \<open>Config.Proxy.Passthrough\<close>; a compiled expression is kept as its source.\<close>

fun compile_passthroughs ::
  "(string \<Rightarrow> error option) \<Rightarrow> string list \<Rightarrow> string list \<Rightarrow> error + string list" where
  "compile_passthroughs cm passthroughs [] = Inr passthroughs"
| "compile_passthroughs cm passthroughs (x # xs) =
     (case cm x of
        Some err \<Rightarrow> Inl (CannotParsePassthrough x)
      | None \<Rightarrow> compile_passthroughs cm (passthroughs @ [x]) xs)"

definition initProxyServer :: "env \<Rightarrow> act" where
  "initProxyServer env s =
     (let p = Proxy (Config (mc s)) in
      if Proxy_Target p = [] then ([Log LogNoProxyTarget], s, None)
      else case compile_passthroughs (http_CompileMatch env) [] (Proxy_Passthrough p) of
             Inl e \<Rightarrow> ([], s, Some e)
           | Inr passthroughs \<Rightarrow>
               (let server = \<lparr>proxy_Target = Proxy_Target p, proxy_DBName = Proxy_DB p,
                              proxy_Addr = Proxy_Addr p, proxy_Debug = Proxy_Debug p,
                              proxy_Passthroughs = passthroughs\<rparr>
                in case proxy_Listen env of
                     Some e \<Rightarrow> ([EvProxyListen], s, Some e)
                   | None \<Rightarrow>
                       ([EvProxyListen], s\<lparr>mc := (mc s)\<lparr>ProxyServer := Some server\<rparr>\<rparr>, None)))"

subsection \<open>initConsul\<close>

text \<open>The hostname: the configured one, or the operating system's if that is empty.\<close>

definition initConsul_hostname :: "env \<Rightarrow> state \<Rightarrow> event list \<times> (error + string)" where
  "initConsul_hostname env s =
     (let hostname = Lease_Hostname (Lease (Config (mc s))) in
      if hostname = [] then ([EvOsHostname], os_Hostname env) else ([], Inr hostname))"

text \<open>
  The advertise URL: the configured one, replaced by the injected function's result when
  there is one, and derived from hostname and port when still empty. \<open>Inl\<close> is the
  panic of \<open>c.HTTPServer.Port()\<close> on a nil server.
\<close>

definition initConsul_advertiseURL :: "env \<Rightarrow> state \<Rightarrow> string \<Rightarrow> error + string" where
  "initConsul_advertiseURL env s hostname =
     (let advertiseURL = Lease_AdvertiseURL (Lease (Config (mc s)));
          advertiseURL = (case AdvertiseURLFn (mc s) of Some u \<Rightarrow> u | None \<Rightarrow> advertiseURL)
      in if advertiseURL = [] \<and> hostname \<noteq> [] then
           (case HTTPServer (mc s) of
              None \<Rightarrow> Inl nil_dereference
            | Some srv \<Rightarrow> Inr (''http://'' @ hostname @ '':'' @ format_d (server_Port env)))
         else Inr advertiseURL)"

text \<open>
  Modelled from the spec: \<open>consul.NewLeaser\<close> is not in this file; the spec says the
  leaser is constructed with (serviceURL, lockKey, hostname, advertiseURL) and has a
  default TTL and a default LockDelay, both overridable. The defaults are parameters.
\<close>

definition consul_NewLeaser :: "env \<Rightarrow> string \<Rightarrow> string \<Rightarrow> string \<Rightarrow> string \<Rightarrow> ConsulLeaser" where
  "consul_NewLeaser env u k hostname advertiseURL =
     \<lparr>leaser_url = u, leaser_key = k, leaser_hostname = hostname,
      leaser_advertiseURL = advertiseURL, TTL = consul_DefaultTTL env,
      LockDelay = consul_DefaultLockDelay env\<rparr>"

definition initConsul_leaser :: "env \<Rightarrow> state \<Rightarrow> string \<Rightarrow> string \<Rightarrow> ConsulLeaser" where
  "initConsul_leaser env s hostname advertiseURL =
     (let c = Lease_Consul (Lease (Config (mc s)));
          leaser = consul_NewLeaser env (Consul_URL c) (Consul_Key c) hostname advertiseURL;
          leaser = (let v = Consul_TTL c in if 0 <s v then leaser\<lparr>TTL := v\<rparr> else leaser);
          leaser = (let v = Consul_LockDelay c in
                    if 0 <s v then leaser\<lparr>LockDelay := v\<rparr> else leaser)
      in leaser)"

definition initConsul :: "env \<Rightarrow> act" where
  "initConsul env s =
     (case initConsul_hostname env s of
        (t, Inl err) \<Rightarrow> (t, s, Some err)
      | (t, Inr hostname) \<Rightarrow>
          (case initConsul_advertiseURL env s hostname of
             Inl p \<Rightarrow> (t, s, Some p)
           | Inr advertiseURL \<Rightarrow>
               (let leaser = initConsul_leaser env s hostname advertiseURL;
                    c = Lease_Consul (Lease (Config (mc s)))
                in case leaser_Open env of
                     Some e \<Rightarrow>
                       (t @ [EvLeaserOpen leaser], s, Some (wrapf ''cannot connect to consul'' e))
                   | None \<Rightarrow>
                       (t @ [EvLeaserOpen leaser,
                             Log (LogInitConsul (Consul_Key c) (Consul_URL c) hostname advertiseURL)],
                        s\<lparr>mc := (mc s)\<lparr>Leaser := Some (ConsulLeaserOf leaser)\<rparr>\<rparr>, None))))"

subsection \<open>openStore, initFileSystem\<close>

text \<open>\<open>expvarOnce.Do(f)\<close>: \<open>f\<close> runs if no \<open>Do\<close> of this \<open>sync.Once\<close> has run before.\<close>

definition expvarOnce_Do :: "event list \<Rightarrow> state \<Rightarrow> event list \<times> state" where
  "expvarOnce_Do f s = (if expvarOnce s then ([], s) else (f, s\<lparr>expvarOnce := True\<rparr>))"

definition openStore :: "env \<Rightarrow> act" where
  "openStore env s =
     (case Store (mc s) of
        None \<Rightarrow> ([], s, Some nil_dereference)
      | Some st \<Rightarrow>
          (let s1 = s\<lparr>mc := (mc s)\<lparr>Store := Some (st\<lparr>store_Leaser := Leaser (mc s)\<rparr>)\<rparr>\<rparr>
           in case store_Open env of
                Some err \<Rightarrow> ([EvStoreOpen], s1, Some err)
              | None \<Rightarrow>
                  (case expvarOnce_Do [EvExpvarPublish] s1 of
                     (t, s2) \<Rightarrow> (EvStoreOpen # t, s2, None))))"

definition initFileSystem :: "env \<Rightarrow> act" where
  "initFileSystem env s =
     (let fsys = \<lparr>fs_path = FUSE_Dir (FUSE (Config (mc s))),
                  fs_AllowOther = FUSE_AllowOther (FUSE (Config (mc s))),
                  fs_Debug = FUSE_Debug (FUSE (Config (mc s)))\<rparr>
      in case fs_Mount env of
           Some err \<Rightarrow> ([EvMount fsys], s, Some (CannotOpenFileSystem err))
         | None \<Rightarrow>
             (case Store (mc s) of
                None \<Rightarrow> ([EvMount fsys], s, Some nil_dereference)
              | Some st \<Rightarrow>
                  ([EvMount fsys],
                   s\<lparr>mc := (mc s)\<lparr>Store := Some (st\<lparr>store_Invalidator := Some fsys\<rparr>),
                                   FileSystem := Some fsys\<rparr>\<rparr>,
                   None)))"

subsection \<open>execCmds\<close>

definition set_cmd :: "string \<Rightarrow> string list \<Rightarrow> state \<Rightarrow> state" where
  "set_cmd name args s = s\<lparr>mc := (mc s)\<lparr>cmd := Some \<lparr>cmd_name = name, cmd_args = args\<rparr>\<rparr>\<rparr>"

definition execSyncCmd :: "env \<Rightarrow> string \<Rightarrow> string list \<Rightarrow> act" where
  "execSyncCmd env name args s =
     (case cmd_Run env name args of
        Some err \<Rightarrow>
          ([Log (LogExecuting name args), EvCmdRun name args], set_cmd name args s,
           Some (wrapf ''cannot run command'' err))
      | None \<Rightarrow> ([Log (LogExecuting name args), EvCmdRun name args], set_cmd name args s, None))"

definition execBackgroundCmd :: "env \<Rightarrow> string \<Rightarrow> string list \<Rightarrow> act" where
  "execBackgroundCmd env name args s =
     (case cmd_Start env name args of
        Some err \<Rightarrow>
          ([Log (LogStarting name args), EvCmdStart name args], set_cmd name args s,
           Some (wrapf ''cannot start exec command'' err))
      | None \<Rightarrow>
          ([Log (LogStarting name args), EvCmdStart name args, EvGoWait], set_cmd name args s,
           None))"

text \<open>
  \<open>config.IfCandidate && !c.Store.Candidate()\<close>: the store is only asked for a
  candidate-only command; \<open>None\<close> is the panic on a nil store.
\<close>

definition skip_command :: "ExecConfig \<Rightarrow> state \<Rightarrow> bool option" where
  "skip_command config s =
     (if IfCandidate config then
        (case Store (mc s) of None \<Rightarrow> None | Some st \<Rightarrow> Some (\<not> Candidate st))
      else Some False)"

text \<open>
  The body of the loop at index \<open>i\<close> of \<open>n = len(c.Config.Exec)\<close> entries, then the rest
  of the loop.
\<close>

primrec execCmds_from :: "env \<Rightarrow> nat \<Rightarrow> nat \<Rightarrow> ExecConfig list \<Rightarrow> act" where
  "execCmds_from env n i [] = emit []"
| "execCmds_from env n i (config # rest) =
     (\<lambda>s. case shellwords_Parse env (Cmd config) of
            Inl err \<Rightarrow> ([], s, Some (CannotParseExecCommand i err))
          | Inr [] \<Rightarrow> ([], s, Some index_out_of_range)
          | Inr (name # args) \<Rightarrow>
              (case skip_command config s of
                 None \<Rightarrow> ([], s, Some nil_dereference)
               | Some True \<Rightarrow>
                   seq (emit [Log (LogSkipCommand name args)])
                       (execCmds_from env n (Suc i) rest) s
               | Some False \<Rightarrow>
                   seq (if int i < int n - 1 then wrap ''sync cmd'' (execSyncCmd env name args)
                        else wrap ''background cmd'' (execBackgroundCmd env name args))
                       (execCmds_from env n (Suc i) rest) s))"

definition execCmds :: "env \<Rightarrow> act" where
  "execCmds env s =
     execCmds_from env (length (Exec (Config (mc s)))) 0 (Exec (Config (mc s))) s"

subsection \<open>promote\<close>

text \<open>
  The \<open>for { select { ... } }\<close> loop. The select statement has a case for \<open>timeout.C\<close> and
  one for \<open>ticker.C\<close>, and none for \<open>ctx.Done()\<close>: a cancellation does not wake it.
\<close>

fun wait_primary :: "wait_event list \<Rightarrow> event list \<times> error option" where
  "wait_primary [] = ([EvRecvTimeout], Some TimedOutWaitingForPromotion)"
| "wait_primary (Tick b # es) =
     (if b then ([EvRecvTick, EvIsPrimary True], None)
      else (case wait_primary es of (t, r) \<Rightarrow> (EvRecvTick # EvIsPrimary False # t, r)))"
| "wait_primary (CtxCanceled cause # es) = wait_primary es"

definition promote :: "env \<Rightarrow> act" where
  "promote env s =
     (case Store (mc s) of
        None \<Rightarrow> ([], s, Some nil_dereference)
      | Some st \<Rightarrow>
          (case store_PrimaryInfo env of
             (isPrimary, info_AdvertiseURL) \<Rightarrow>
               if isPrimary then ([EvPrimaryInfo, Log LogAlreadyPrimary], s, None)
               else (case client_Handoff env of
                       Some err \<Rightarrow>
                         ([EvPrimaryInfo, EvHandoff info_AdvertiseURL (store_ID env)], s,
                          Some (wrapf ''handoff'' err))
                     | None \<Rightarrow>
                         (case wait_primary (promote_timeline env) of
                            (t, r) \<Rightarrow>
                              ([EvPrimaryInfo, EvHandoff info_AdvertiseURL (store_ID env),
                                EvNewTicker TickerT (1 * Millisecond),
                                EvNewTicker TimeoutT (10 * Second)]
                               @ t @ [EvTickerStop TimeoutT, EvTickerStop TickerT],
                               s, r)))))"

subsection \<open>Run\<close>

text \<open>The switch on \<open>c.Config.Lease.Type\<close>.\<close>

definition Run_leaser :: "env \<Rightarrow> act" where
  "Run_leaser env s =
     (let v = Lease_Type (Lease (Config (mc s))); l = Lease (Config (mc s)) in
      if v = LeaseTypeConsul then
        seq (emit [Log LogUsingConsul]) (wrap ''cannot init consul'' (initConsul env)) s
      else if v = LeaseTypeStatic then
        ([Log (LogUsingStatic (Lease_Candidate l) (Lease_Hostname l) (Lease_AdvertiseURL l))],
         s\<lparr>mc := (mc s)\<lparr>Leaser :=
              Some (StaticLeaser (Lease_Candidate l) (Lease_Hostname l) (Lease_AdvertiseURL l))\<rparr>\<rparr>,
         None)
      else ([], s, Some (InvalidLeaseType v)))"

text \<open>\<open>c.FileSystem.Path()\<close>, \<open>c.HTTPServer.Serve()\<close> and the two log lines around them.\<close>

definition Run_serve :: act where
  "Run_serve s =
     (case FileSystem (mc s) of
        None \<Rightarrow> ([], s, Some nil_dereference)
      | Some fsys \<Rightarrow>
          (case HTTPServer (mc s) of
             None \<Rightarrow> ([Log (LogMounted (fs_path fsys))], s, Some nil_dereference)
           | Some srv \<Rightarrow>
               ([Log (LogMounted (fs_path fsys)), EvServerServe, Log LogHTTPListening], s, None)))"

text \<open>Automatic promotion, inside the branch that has waited for the cluster.\<close>

definition Run_promote :: "env \<Rightarrow> act" where
  "Run_promote env s =
     (if Lease_Promote (Lease (Config (mc s))) then
        (case Store (mc s) of
           None \<Rightarrow> ([], s, Some nil_dereference)
         | Some st \<Rightarrow>
             if Candidate st then
               seq (emit [Log LogAutoPromote]) (wrap ''promote'' (promote env)) s
             else ([Log LogSkipAutoPromote], s, None))
      else ([], s, None))"

text \<open>The wait until the store is primary or connected to the primary.\<close>

definition Run_sync :: "env \<Rightarrow> act" where
  "Run_sync env s =
     (if SkipSync (Config (mc s)) then ([Log LogSkippingSync], s, None)
      else (case Store (mc s) of
              None \<Rightarrow> ([Log LogWaiting], s, Some nil_dereference)
            | Some st \<Rightarrow>
                (case run_select env of
                   CtxDone cause \<Rightarrow> ([Log LogWaiting, EvSelectCtxDone], s, Some cause)
                 | ReadyCh \<Rightarrow>
                     seq (emit [Log LogWaiting, EvSelectReady, Log LogConnected])
                         (Run_promote env) s)))"

definition Run_proxy :: act where
  "Run_proxy s =
     (case ProxyServer (mc s) of
        None \<Rightarrow> ([], s, None)
      | Some srv \<Rightarrow> ([EvProxyServe, Log LogProxyListening], s, None))"

definition Run_exec :: "env \<Rightarrow> act" where
  "Run_exec env s =
     (if length (Exec (Config (mc s))) > 0 then wrap ''cannot exec'' (execCmds env) s
      else ([], s, None))"

definition Run :: "env \<Rightarrow> act" where
  "Run env =
     seq (emit [EvPrintVersion])
    (seq (wrap ''cannot init store'' (initStore env))
    (seq (wrap ''cannot init http server'' (initHTTPServer env))
    (seq (wrap ''cannot init proxy server'' (initProxyServer env))
    (seq (Run_leaser env)
    (seq (wrap ''cannot open store'' (openStore env))
    (seq (wrap ''cannot init file system'' (initFileSystem env))
    (seq Run_serve
    (seq (Run_sync env)
    (seq Run_proxy
         (Run_exec env))))))))))"

subsection \<open>Callers\<close>

text \<open>
  Modelled from the spec: the caller that validates the configuration and then runs the
  command is not in this file; the spec says an invalid configuration is fatal at
  startup and the process must not proceed.
\<close>

definition startup :: "env \<Rightarrow> act" where
  "startup env s =
     (case Validate (mc s) of
        Some err \<Rightarrow> ([], s, Some err)
      | None \<Rightarrow> Run env s)"

text \<open>
  A sequence of calls of \<open>openStore\<close> in one process, each on its own command and with
  its own answers from the collaborators; \<open>expvarOnce\<close> is shared. The result lists
  the events of each call.
\<close>

fun openStore_calls :: "bool \<Rightarrow> (env \<times> MountCommand) list \<Rightarrow> event list list" where
  "openStore_calls once [] = []"
| "openStore_calls once ((env, c) # rest) =
     (case openStore env \<lparr>mc = c, expvarOnce = once\<rparr> of
        (t, s', r) \<Rightarrow> t # openStore_calls (expvarOnce s') rest)"

subsection \<open>Reading a trace\<close>

text \<open>The answers of \<open>IsPrimary()\<close> in a trace, and the ticks of a timeline, in order.\<close>

primrec polls :: "event list \<Rightarrow> bool list" where
  "polls [] = []"
| "polls (e # es) = (case e of EvIsPrimary b \<Rightarrow> b # polls es | _ \<Rightarrow> polls es)"

primrec ticks :: "wait_event list \<Rightarrow> bool list" where
  "ticks [] = []"
| "ticks (w # ws) = (case w of Tick b \<Rightarrow> b # ticks ws | CtxCanceled cause \<Rightarrow> ticks ws)"

text \<open>Serving traffic or running a subprocess; a call made by \<open>promote\<close>.\<close>

definition is_serving :: "event \<Rightarrow> bool" where
  "is_serving e =
     (case e of EvProxyServe \<Rightarrow> True | EvCmdRun name args \<Rightarrow> True
      | EvCmdStart name args \<Rightarrow> True | _ \<Rightarrow> False)"

definition is_promotion :: "event \<Rightarrow> bool" where
  "is_promotion e =
     (case e of EvPrimaryInfo \<Rightarrow> True | EvHandoff u i \<Rightarrow> True | EvNewTicker k d \<Rightarrow> True
      | EvTickerStop k \<Rightarrow> True | EvRecvTimeout \<Rightarrow> True | EvRecvTick \<Rightarrow> True
      | EvIsPrimary b \<Rightarrow> True | Log LogAutoPromote \<Rightarrow> True | Log LogAlreadyPrimary \<Rightarrow> True
      | _ \<Rightarrow> False)"

text \<open>The leasers on which \<open>Open\<close> is called in a trace.\<close>

primrec opened :: "event list \<Rightarrow> ConsulLeaser list" where
  "opened [] = []"
| "opened (e # es) = (case e of EvLeaserOpen l \<Rightarrow> l # opened es | _ \<Rightarrow> opened es)"

text \<open>A call of \<open>openStore\<close> that gets as far as \<open>expvarOnce.Do\<close>.\<close>

definition reaches_once :: "env \<times> MountCommand \<Rightarrow> bool" where
  "reaches_once call = (Store (snd call) \<noteq> None \<and> store_Open (fst call) = None)"

text \<open>
  Scanning a trace: every serving event comes after the readiness signal has been
  received (\<open>ready\<close> tells whether it has been before the scan starts).
\<close>

primrec gated_from :: "bool \<Rightarrow> event list \<Rightarrow> bool" where
  "gated_from ready [] = True"
| "gated_from ready (e # es) =
     ((is_serving e \<longrightarrow> ready) \<and> gated_from (ready \<or> e = EvSelectReady) es)"

text \<open>The commands that a trace runs or starts.\<close>

primrec executed :: "event list \<Rightarrow> (string \<times> string list) list" where
  "executed [] = []"
| "executed (e # es) =
     (case e of EvCmdRun name args \<Rightarrow> (name, args) # executed es
      | EvCmdStart name args \<Rightarrow> (name, args) # executed es
      | _ \<Rightarrow> executed es)"

text \<open>
  The steps of \<open>Run\<close> before \<open>c.HTTPServer.Serve()\<close>, and those after the wait for the
  cluster.
\<close>

definition Run_setup :: "env \<Rightarrow> act" where
  "Run_setup env =
     seq (emit [EvPrintVersion])
    (seq (wrap ''cannot init store'' (initStore env))
    (seq (wrap ''cannot init http server'' (initHTTPServer env))
    (seq (wrap ''cannot init proxy server'' (initProxyServer env))
    (seq (Run_leaser env)
    (seq (wrap ''cannot open store'' (openStore env))
         (wrap ''cannot init file system'' (initFileSystem env)))))))"

definition Run_start :: "env \<Rightarrow> act" where
  "Run_start env = seq Run_proxy (Run_exec env)"

text \<open>An action whose events all satisfy \<open>P\<close>; an action that keeps \<open>I\<close> of the state.\<close>

definition emits :: "(event \<Rightarrow> bool) \<Rightarrow> act \<Rightarrow> bool" where
  "emits P f = (\<forall>s. \<forall>e \<in> set (fst (f s)). P e)"

definition keeps :: "(state \<Rightarrow> bool) \<Rightarrow> act \<Rightarrow> bool" where
  "keeps I f = (\<forall>s. I s \<longrightarrow> I (fst (snd (f s))))"

text \<open>Neither serving, nor promotion, nor the select statement, nor the HTTP server's serve.\<close>

definition quiet :: "event \<Rightarrow> bool" where
  "quiet e =
     (\<not> is_serving e \<and> \<not> is_promotion e \<and> e \<noteq> EvSelectReady \<and> e \<noteq> EvSelectCtxDone \<and>
      e \<noteq> EvServerServe)"

text \<open>A state whose store has the candidate flag \<open>b\<close>; an event that the exec loop may perform.\<close>

definition cand :: "bool \<Rightarrow> state \<Rightarrow> bool" where
  "cand b s = (\<exists>st. Store (mc s) = Some st \<and> Candidate st = b)"

definition exec_event :: "event \<Rightarrow> bool" where
  "exec_event e =
     (\<not> is_promotion e \<and> e \<noteq> EvSelectReady \<and> e \<noteq> EvSelectCtxDone \<and> e \<noteq> EvServerServe \<and>
      e \<noteq> EvProxyServe)"

subsection \<open>A concrete node\<close>

text \<open>\<open>NewMountCommand\<close>, with the configuration that \<open>ParseFlags\<close> has read.\<close>

definition NewMountCommand :: "Config \<Rightarrow> MountCommand" where
  "NewMountCommand cfg =
     \<lparr>cmd = None, Config = cfg, Store = None, Leaser = None, FileSystem = None,
      HTTPServer = None, ProxyServer = None, AdvertiseURLFn = None\<rparr>"

definition replica_config :: Config where
  "replica_config =
     \<lparr>FUSE = \<lparr>FUSE_Dir = ''/litefs'', FUSE_AllowOther = False, FUSE_Debug = False\<rparr>,
      Data = \<lparr>Data_Dir = ''/var/lib/litefs'', Data_Compress = True, Data_Retention = 0,
              Data_RetentionMonitorInterval = 0\<rparr>,
      Lease = \<lparr>Lease_Type = ''consul'', Lease_Candidate = False, Lease_Hostname = ''node2'',
               Lease_AdvertiseURL = [], Lease_Promote = True, Lease_ReconnectDelay = 0,
               Lease_DemoteDelay = 0,
               Lease_Consul = \<lparr>Consul_URL = ''http://consul:8500'', Consul_Key = ''litefs/primary'',
                                Consul_TTL = 5000000000, Consul_LockDelay = 0\<rparr>\<rparr>,
      HTTP = \<lparr>HTTP_Addr = '':20202''\<rparr>,
      Proxy = \<lparr>Proxy_Target = ''localhost:8081'', Proxy_DB = ''db'', Proxy_Addr = '':8080'',
               Proxy_Debug = False, Proxy_Passthrough = []\<rparr>,
      Exec = [\<lparr>Cmd = ''migrate'', IfCandidate = True\<rparr>, \<lparr>Cmd = ''app'', IfCandidate = False\<rparr>],
      SkipSync = False, StrictVerify = False\<rparr>"

definition candidate_config :: Config where
  "candidate_config = replica_config\<lparr>Lease := (Lease replica_config)\<lparr>Lease_Candidate := True\<rparr>\<rparr>"

text \<open>
  Collaborators that all succeed; a command line is one word unless it is empty or
  starts with a double quote, which does not parse.
\<close>

definition calm_env :: env where
  "calm_env =
     \<lparr>server_Listen = None, server_Port = 20202, http_CompileMatch = (\<lambda>x. None),
      proxy_Listen = None, os_Hostname = Inr ''host'', consul_DefaultTTL = 10000000000,
      consul_DefaultLockDelay = 1000000000, leaser_Open = None, store_Open = None,
      store_ID = 7, store_PrimaryInfo = (False, ''http://node1:20202''), fs_Mount = None,
      run_select = ReadyCh, client_Handoff = None,
      promote_timeline = [Tick False, CtxCanceled (Foreign ''context canceled''), Tick False],
      shellwords_Parse =
        (\<lambda>x. if x = [] then Inr []
              else if hd x = CHR 0x22 then Inl (Foreign ''invalid command line string'')
              else Inr [x]),
      cmd_Run = (\<lambda>name args. None), cmd_Start = (\<lambda>name args. None)\<rparr>"

text \<open>A process that has just built its command, and the same after \<open>initStore\<close>.\<close>

definition fresh :: "Config \<Rightarrow> state" where
  "fresh cfg = \<lparr>mc = NewMountCommand cfg, expvarOnce = False\<rparr>"

definition stored :: "Config \<Rightarrow> state" where
  "stored cfg = fst (snd (initStore calm_env (fresh cfg)))"

definition primary_env :: env where
  "primary_env = calm_env\<lparr>store_PrimaryInfo := (True, ''http://node2:20202'')\<rparr>"

definition promoted_env :: env where
  "promoted_env = calm_env\<lparr>promote_timeline := [Tick False, Tick True, Tick False]\<rparr>"

definition same_dir_config :: Config where
  "same_dir_config = replica_config\<lparr>Data := (Data replica_config)\<lparr>Data_Dir := ''/litefs''\<rparr>\<rparr>"

text \<open>The command once the HTTP server listens, and collaborators whose store fails to open.\<close>

definition listening :: "Config \<Rightarrow> state" where
  "listening cfg = fst (snd (initHTTPServer calm_env (stored cfg)))"

definition closed_env :: env where
  "closed_env = calm_env\<lparr>store_Open := Some (Foreign ''cannot open store'')\<rparr>"

definition advertised_config :: Config where
  "advertised_config =
     replica_config\<lparr>Lease := (Lease replica_config)\<lparr>Lease_AdvertiseURL := ''http://a:1''\<rparr>\<rparr>"

definition negative_config :: Config where
  "negative_config =
     replica_config\<lparr>Lease := (Lease replica_config)
       \<lparr>Lease_Consul := (Lease_Consul (Lease replica_config))
          \<lparr>Consul_TTL := - 1, Consul_LockDelay := 2000000000\<rparr>\<rparr>\<rparr>"

text \<open>Three calls of \<open>openStore\<close> in one process; the store fails to open in the first.\<close>

definition retried_calls :: "(env \<times> MountCommand) list" where
  "retried_calls =
     [(closed_env, mc (stored replica_config)), (calm_env, mc (stored replica_config)),
      (calm_env, mc (stored replica_config))]"

definition skip_config :: Config where
  "skip_config = candidate_config\<lparr>SkipSync := True\<rparr>"

definition unparsable_config :: Config where
  "unparsable_config =
     replica_config\<lparr>Exec := [\<lparr>Cmd = CHR 0x22 # ''migrate'', IfCandidate = True\<rparr>,
                              \<lparr>Cmd = ''app'', IfCandidate = False\<rparr>]\<rparr>"

definition canceled_env :: env where
  "canceled_env = calm_env\<lparr>run_select := CtxDone (Foreign ''context canceled'')\<rparr>"

section \<open>Properties\<close>

subsection \<open>Auxiliary facts\<close>

lemma nat_digits_small: "n < 10 \<Longrightarrow> nat_digits n = [digit_char n]"
  by (simp add: nat_digits.simps)

lemma nat_digits_large:
  "\<not> n < 10 \<Longrightarrow> nat_digits n = nat_digits (n div 10) @ [digit_char (n mod 10)]"
  by (subst nat_digits.simps) simp

lemma duration_units: "Millisecond = 1000000" "Second = 1000000000"
  by (simp_all add: Millisecond_def Second_def Microsecond_def Nanosecond_def)

lemma wait_primary_result:
  "snd (wait_primary es)
     = (if True \<in> set (ticks es) then None else Some TimedOutWaitingForPromotion)"
  by (induction es rule: wait_primary.induct) (auto split: prod.splits)

lemma wait_primary_polls:
  "polls (fst (wait_primary es)) = takeWhile Not (ticks es) @ take 1 (dropWhile Not (ticks es))"
  by (induction es rule: wait_primary.induct) (auto split: prod.splits)

lemma wait_primary_no_ticker: "EvNewTicker k d \<notin> set (fst (wait_primary es))"
  by (induction es rule: wait_primary.induct) (auto split: prod.splits)

lemma polls_append: "polls (xs @ ys) = polls xs @ polls ys"
  by (induction xs) (auto split: event.splits)

lemma store_stored:
  "Store (mc (stored cfg)) =
     Some ((NewStore (Data_Dir (Data cfg)) (Lease_Candidate (Lease cfg)))
             \<lparr>store_StrictVerify := StrictVerify cfg,
              store_Compress := Data_Compress (Data cfg),
              store_Retention := Data_Retention (Data cfg),
              store_RetentionMonitorInterval := Data_RetentionMonitorInterval (Data cfg),
              store_ReconnectDelay := Lease_ReconnectDelay (Lease cfg),
              store_DemoteDelay := Lease_DemoteDelay (Lease cfg)\<rparr>)"
  by (simp add: stored_def initStore_def fresh_def NewMountCommand_def Let_def)

lemma opened_append: "opened (xs @ ys) = opened xs @ opened ys"
  by (induction xs) (auto split: event.splits)

lemma initConsul_opened:
  "opened (fst (initConsul env s)) =
     (case snd (initConsul_hostname env s) of
        Inl err \<Rightarrow> []
      | Inr h \<Rightarrow> (case initConsul_advertiseURL env s h of
                    Inl p \<Rightarrow> []
                  | Inr a \<Rightarrow> [initConsul_leaser env s h a]))"
  by (auto simp: initConsul_def initConsul_hostname_def Let_def opened_append
      split: sum.splits option.splits prod.splits)

lemma initConsul_Leaser:
  "snd (snd (initConsul env s)) = None \<Longrightarrow>
   \<exists>l. opened (fst (initConsul env s)) = [l] \<and>
       Leaser (mc (fst (snd (initConsul env s)))) = Some (ConsulLeaserOf l)"
  by (auto simp: initConsul_def initConsul_hostname_def Let_def opened_append
      split: sum.splits option.splits prod.splits if_splits)

lemma listening_fields:
  "Config (mc (listening cfg)) = cfg" "AdvertiseURLFn (mc (listening cfg)) = None"
  "HTTPServer (mc (listening cfg)) = Some \<lparr>server_addr = HTTP_Addr (HTTP cfg)\<rparr>"
  by (simp_all add: listening_def stored_def initStore_def initHTTPServer_def fresh_def
      NewMountCommand_def calm_env_def Let_def)

lemma format_d_20202: "format_d 20202 = ''20202''"
  by (simp add: format_d_def nat_digits_small nat_digits_large digit_char_def)

lemma openStore_trace:
  "fst (openStore env \<lparr>mc = c, expvarOnce = b\<rparr>) =
     (if Store c = None then []
      else if reaches_once (env, c) \<and> \<not> b then [EvStoreOpen, EvExpvarPublish]
      else [EvStoreOpen])"
  by (auto simp: openStore_def expvarOnce_Do_def reaches_once_def Let_def
      split: option.splits)

lemma openStore_once:
  "expvarOnce (fst (snd (openStore env \<lparr>mc = c, expvarOnce = b\<rparr>))) = (b \<or> reaches_once (env, c))"
  by (auto simp: openStore_def expvarOnce_Do_def reaches_once_def Let_def
      split: option.splits)

lemma openStore_calls_Cons:
  "openStore_calls b (call # rest) =
     fst (openStore (fst call) \<lparr>mc = snd call, expvarOnce = b\<rparr>)
     # openStore_calls (b \<or> reaches_once call) rest"
proof (cases call)
  case (Pair env c)
  obtain t s' r where o: "openStore env \<lparr>mc = c, expvarOnce = b\<rparr> = (t, s', r)"
    by (cases "openStore env \<lparr>mc = c, expvarOnce = b\<rparr>")
  with openStore_once [of env c b] have "expvarOnce s' = (b \<or> reaches_once (env, c))"
    by simp
  with Pair o show ?thesis
    by simp
qed

lemma publish_iff:
  "i < length calls \<Longrightarrow>
   (EvExpvarPublish \<in> set (openStore_calls b calls ! i)) =
     (\<not> b \<and> reaches_once (calls ! i) \<and> (\<forall>j<i. \<not> reaches_once (calls ! j)))"
proof (induction calls arbitrary: b i)
  case Nil
  then show ?case by simp
next
  case (Cons call rest)
  show ?case
  proof (cases i)
    case 0
    then show ?thesis
      by (cases call) (auto simp: openStore_calls_Cons openStore_trace reaches_once_def
          simp del: openStore_calls.simps(2))
  next
    case (Suc k)
    then have "k < length rest" using Cons.prems by simp
    from Cons.IH [OF this, of "b \<or> reaches_once call"] Suc show ?thesis
      by (auto simp: openStore_calls_Cons less_Suc_eq_0_disj simp del: openStore_calls.simps(2))
  qed
qed

lemma publish_count:
  "length (filter (\<lambda>e. e = EvExpvarPublish) (concat (openStore_calls b calls))) \<le> (if b then 0 else 1)"
proof (induction calls arbitrary: b)
  case Nil
  then show ?case by simp
next
  case (Cons call rest)
  from Cons [of "b \<or> reaches_once call"] show ?case
    by (cases call) (auto simp: openStore_calls_Cons openStore_trace
          simp del: openStore_calls.simps(2) split: if_splits)
qed

lemma seq_assoc: "seq (seq f g) h = seq f (seq g h)"
  by (rule ext) (auto simp: seq_def split: prod.splits option.splits)

lemma Run_decomp:
  "Run env = seq (Run_setup env) (seq Run_serve (seq (Run_sync env) (Run_start env)))"
  by (simp add: Run_def Run_setup_def Run_start_def seq_assoc)

lemma seq_cases:
  obtains (stop) t s' e where "f s = (t, s', Some e)" "seq f g s = (t, s', Some e)"
  | (go) t1 s1 t2 s2 r where "f s = (t1, s1, None)" "g s1 = (t2, s2, r)"
      "seq f g s = (t1 @ t2, s2, r)"
proof (cases "f s")
  case (fields t s' r)
  show ?thesis
  proof (cases r)
    case None
    obtain t2 s2 r2 where g: "g s' = (t2, s2, r2)" by (cases "g s'")
    show ?thesis
      by (rule go [of t s' t2 s2 r2]) (simp_all add: fields None g seq_def)
  next
    case (Some e)
    show ?thesis
      by (rule stop [of t s' e]) (simp_all add: fields Some seq_def)
  qed
qed

lemma emits_seq: "emits P f \<Longrightarrow> emits P g \<Longrightarrow> emits P (seq f g)"
  unfolding emits_def
proof (intro allI ballI)
  fix s e
  assume f: "\<forall>s. \<forall>e\<in>set (fst (f s)). P e" and g: "\<forall>s. \<forall>e\<in>set (fst (g s)). P e"
    and e: "e \<in> set (fst (seq f g s))"
  show "P e"
  proof (cases rule: seq_cases [of f s g])
    case (stop t s' err)
    with f [rule_format, of e s] e show ?thesis by simp
  next
    case (go t1 s1 t2 s2 r)
    with f [rule_format, of e s] g [rule_format, of e s1] e show ?thesis by auto
  qed
qed

lemma wrap_fst [simp]: "fst (wrap p f s) = fst (f s)"
  by (simp add: wrap_def split: prod.splits)

lemma wrap_fst_snd [simp]: "fst (snd (wrap p f s)) = fst (snd (f s))"
  by (simp add: wrap_def split: prod.splits)

lemma wrap_snd_snd [simp]: "snd (snd (wrap p f s)) = map_option (wrapf p) (snd (snd (f s)))"
  by (simp add: wrap_def split: prod.splits)

lemma emits_wrap: "emits P f \<Longrightarrow> emits P (wrap p f)"
  by (simp add: emits_def)

lemma emits_emit: "(\<forall>e \<in> set es. P e) \<Longrightarrow> emits P (emit es)"
  by (simp add: emits_def emit_def)

lemma emits_weaken: "emits P f \<Longrightarrow> (\<And>e. P e \<Longrightarrow> Q e) \<Longrightarrow> emits Q f"
  by (auto simp: emits_def)

lemma keeps_seq: "keeps I f \<Longrightarrow> keeps I g \<Longrightarrow> keeps I (seq f g)"
  unfolding keeps_def
proof (intro allI impI)
  fix s
  assume f: "\<forall>s. I s \<longrightarrow> I (fst (snd (f s)))" and g: "\<forall>s. I s \<longrightarrow> I (fst (snd (g s)))"
    and i: "I s"
  show "I (fst (snd (seq f g s)))"
  proof (cases rule: seq_cases [of f s g])
    case (stop t s' err)
    with f [rule_format, OF i] show ?thesis by simp
  next
    case (go t1 s1 t2 s2 r)
    with f [rule_format, OF i] g [rule_format, of s1] show ?thesis by simp
  qed
qed

lemma keeps_wrap: "keeps I f \<Longrightarrow> keeps I (wrap p f)"
  by (simp add: keeps_def)

lemma keeps_emit: "keeps I (emit es)"
  by (simp add: keeps_def emit_def)

lemma quiet_simps:
  "quiet EvPrintVersion" "quiet (Log m) = (m \<noteq> LogAutoPromote \<and> m \<noteq> LogAlreadyPrimary)"
  "quiet EvServerListen" "quiet EvProxyListen" "quiet EvOsHostname" "quiet (EvLeaserOpen l)"
  "quiet EvStoreOpen" "quiet EvExpvarPublish" "quiet (EvMount fsys)"
  by (auto simp: quiet_def is_serving_def is_promotion_def split: log_msg.splits)

lemma emits_initStore: "emits quiet (initStore env)"
  by (simp add: emits_def initStore_def Let_def)

lemma emits_initHTTPServer: "emits quiet (initHTTPServer env)"
  by (auto simp: emits_def initHTTPServer_def Let_def quiet_simps split: option.splits)

lemma emits_initProxyServer: "emits quiet (initProxyServer env)"
  by (auto simp: emits_def initProxyServer_def Let_def quiet_simps split: option.splits sum.splits)

lemma emits_initConsul: "emits quiet (initConsul env)"
  by (auto simp: emits_def initConsul_def initConsul_hostname_def Let_def quiet_simps
      split: option.splits sum.splits if_splits)

lemma emits_Run_leaser: "emits quiet (Run_leaser env)"
proof -
  have "emits quiet (seq (emit [Log LogUsingConsul]) (wrap ''cannot init consul'' (initConsul env)))"
    by (intro emits_seq emits_wrap emits_emit emits_initConsul) (simp add: quiet_simps)
  then show ?thesis
    by (auto simp: emits_def Run_leaser_def Let_def quiet_simps)
qed

lemma emits_openStore: "emits quiet (openStore env)"
  by (auto simp: emits_def openStore_def expvarOnce_Do_def Let_def quiet_simps
      split: option.splits if_splits)

lemma emits_initFileSystem: "emits quiet (initFileSystem env)"
  by (auto simp: emits_def initFileSystem_def Let_def quiet_simps split: option.splits)

lemma emits_Run_setup: "emits quiet (Run_setup env)"
  unfolding Run_setup_def
  by (intro emits_seq emits_wrap emits_emit emits_initStore emits_initHTTPServer
      emits_initProxyServer emits_Run_leaser emits_openStore emits_initFileSystem)
    (simp add: quiet_simps)


lemma keeps_initStore: "keeps (\<lambda>s. Config (mc s) = cfg) (initStore env)"
  by (simp add: keeps_def initStore_def Let_def)

lemma keeps_initHTTPServer: "keeps (\<lambda>s. Config (mc s) = cfg) (initHTTPServer env)"
  by (auto simp: keeps_def initHTTPServer_def Let_def split: option.splits)

lemma keeps_initProxyServer: "keeps (\<lambda>s. Config (mc s) = cfg) (initProxyServer env)"
  by (auto simp: keeps_def initProxyServer_def Let_def split: option.splits sum.splits)

lemma keeps_initConsul: "keeps (\<lambda>s. Config (mc s) = cfg) (initConsul env)"
  by (auto simp: keeps_def initConsul_def Let_def split: option.splits sum.splits prod.splits)

lemma keeps_Run_leaser: "keeps (\<lambda>s. Config (mc s) = cfg) (Run_leaser env)"
proof -
  have "keeps (\<lambda>s. Config (mc s) = cfg)
          (seq (emit [Log LogUsingConsul]) (wrap ''cannot init consul'' (initConsul env)))"
    by (intro keeps_seq keeps_wrap keeps_emit keeps_initConsul)
  then show ?thesis
    by (auto simp: keeps_def Run_leaser_def Let_def)
qed

lemma keeps_openStore: "keeps (\<lambda>s. Config (mc s) = cfg) (openStore env)"
  by (auto simp: keeps_def openStore_def expvarOnce_Do_def Let_def split: option.splits)

lemma keeps_initFileSystem: "keeps (\<lambda>s. Config (mc s) = cfg) (initFileSystem env)"
  by (auto simp: keeps_def initFileSystem_def Let_def split: option.splits)

lemma keeps_Run_setup: "keeps (\<lambda>s. Config (mc s) = cfg) (Run_setup env)"
  unfolding Run_setup_def
  by (intro keeps_seq keeps_wrap keeps_emit keeps_initStore keeps_initHTTPServer
      keeps_initProxyServer keeps_Run_leaser keeps_openStore keeps_initFileSystem)

lemma cand_initHTTPServer: "keeps (cand b) (initHTTPServer env)"
  by (auto simp: keeps_def cand_def initHTTPServer_def Let_def split: option.splits)

lemma cand_initProxyServer: "keeps (cand b) (initProxyServer env)"
  by (auto simp: keeps_def cand_def initProxyServer_def Let_def split: option.splits sum.splits)

lemma cand_initConsul: "keeps (cand b) (initConsul env)"
  by (auto simp: keeps_def cand_def initConsul_def Let_def split: option.splits sum.splits prod.splits)

lemma cand_Run_leaser: "keeps (cand b) (Run_leaser env)"
proof -
  have "keeps (cand b)
          (seq (emit [Log LogUsingConsul]) (wrap ''cannot init consul'' (initConsul env)))"
    by (intro keeps_seq keeps_wrap keeps_emit cand_initConsul)
  then show ?thesis
    by (auto simp: keeps_def cand_def Run_leaser_def Let_def)
qed

lemma cand_openStore: "keeps (cand b) (openStore env)"
  by (auto simp: keeps_def cand_def Candidate_def openStore_def expvarOnce_Do_def Let_def split: option.splits)

lemma cand_initFileSystem: "keeps (cand b) (initFileSystem env)"
  by (auto simp: keeps_def cand_def Candidate_def initFileSystem_def Let_def split: option.splits)

lemma cand_initStore: "cand (Lease_Candidate (Lease (Config (mc s)))) (fst (snd (initStore env s)))"
  by (simp add: cand_def Candidate_def initStore_def NewStore_def Let_def)

lemma cand_Run_setup:
  "snd (snd (Run_setup env s)) = None \<Longrightarrow>
   cand (Lease_Candidate (Lease (Config (mc s)))) (fst (snd (Run_setup env s)))"
proof -
  let ?b = "Lease_Candidate (Lease (Config (mc s)))"
  let ?rest = "seq (wrap ''cannot init http server'' (initHTTPServer env))
    (seq (wrap ''cannot init proxy server'' (initProxyServer env))
    (seq (Run_leaser env)
    (seq (wrap ''cannot open store'' (openStore env))
         (wrap ''cannot init file system'' (initFileSystem env)))))"
  have k: "keeps (cand ?b) ?rest"
    by (intro keeps_seq keeps_wrap cand_initHTTPServer cand_initProxyServer cand_Run_leaser
        cand_openStore cand_initFileSystem)
  have r: "fst (snd (Run_setup env s)) = fst (snd (?rest (fst (snd (initStore env s)))))"
    by (simp add: Run_setup_def seq_def [of "emit [EvPrintVersion]"]
        seq_def [of "wrap ''cannot init store'' (initStore env)"] emit_def wrap_def
        initStore_def Let_def split: prod.splits)
  from k cand_initStore [of s env] have "cand ?b (fst (snd (?rest (fst (snd (initStore env s))))))"
    by (simp add: keeps_def)
  then show ?thesis
    by (simp add: r)
qed


lemma seq_fst:
  "fst (seq f g s) =
     (if snd (snd (f s)) = None then fst (f s) @ fst (g (fst (snd (f s)))) else fst (f s))"
  by (auto simp: seq_def split: prod.splits option.splits)

lemma seq_state:
  "fst (snd (seq f g s)) =
     (if snd (snd (f s)) = None then fst (snd (g (fst (snd (f s))))) else fst (snd (f s)))"
  by (auto simp: seq_def split: prod.splits option.splits)

lemma seq_result:
  "snd (snd (seq f g s)) =
     (if snd (snd (f s)) = None then snd (snd (g (fst (snd (f s))))) else snd (snd (f s)))"
  by (auto simp: seq_def split: prod.splits option.splits)

lemma is_promotion_other:
  "is_promotion e \<Longrightarrow>
     \<not> is_serving e \<and> e \<noteq> EvSelectReady \<and> e \<noteq> EvSelectCtxDone \<and> e \<noteq> EvServerServe \<and>
     e \<noteq> Log LogSkipAutoPromote"
  by (auto simp: is_promotion_def is_serving_def split: event.splits log_msg.splits)

lemma Run_serve_state: "fst (snd (Run_serve s)) = s"
  by (simp add: Run_serve_def split: option.splits)

lemma Run_serve_ok:
  "snd (snd (Run_serve s)) = None \<Longrightarrow>
   \<exists>p. fst (Run_serve s) = [Log (LogMounted p), EvServerServe, Log LogHTTPListening]"
  by (simp add: Run_serve_def split: option.splits)

lemma Run_serve_fail:
  "snd (snd (Run_serve s)) \<noteq> None \<Longrightarrow> \<forall>e \<in> set (fst (Run_serve s)). quiet e"
  by (auto simp: Run_serve_def quiet_simps split: option.splits)

lemma wait_primary_events:
  "e \<in> set (fst (wait_primary es)) \<Longrightarrow> is_promotion e"
  by (induction es rule: wait_primary.induct)
    (auto simp: is_promotion_def split: prod.splits if_splits)

lemma promote_state: "fst (snd (promote env s)) = s"
  by (simp add: promote_def split: option.splits prod.splits)

lemma is_promotion_simps:
  "is_promotion EvPrimaryInfo" "is_promotion (Log LogAlreadyPrimary)"
  "is_promotion (Log LogAutoPromote)" "is_promotion (EvHandoff u i)"
  "is_promotion (EvNewTicker k d)" "is_promotion (EvTickerStop k)"
  "\<not> is_promotion (Log LogSkipAutoPromote)" "\<not> is_promotion (Log LogWaiting)"
  "\<not> is_promotion (Log LogConnected)" "\<not> is_promotion EvSelectReady"
  "\<not> is_promotion EvSelectCtxDone" "\<not> is_promotion (Log LogSkippingSync)"
  by (simp_all add: is_promotion_def)

lemma promote_events:
  assumes "e \<in> set (fst (promote env s))"
  shows "is_promotion e"
proof -
  have "\<forall>e \<in> set (fst (wait_primary (promote_timeline env))). is_promotion e"
    using wait_primary_events by blast
  with assms show ?thesis
    by (auto simp: promote_def is_promotion_simps split: option.splits prod.splits if_splits)
qed

lemma Run_promote_state: "fst (snd (Run_promote env s)) = s"
  by (simp add: Run_promote_def seq_state emit_def promote_state split: option.splits)

lemma Run_promote_events:
  "e \<in> set (fst (Run_promote env s)) \<Longrightarrow> is_promotion e \<or> e = Log LogSkipAutoPromote"
  by (auto simp: Run_promote_def seq_fst emit_def is_promotion_simps
      split: option.splits if_splits dest: promote_events)

lemma Run_promote_noncandidate:
  "cand False s \<Longrightarrow>
   fst (Run_promote env s)
     = (if Lease_Promote (Lease (Config (mc s))) then [Log LogSkipAutoPromote] else [])"
  by (auto simp: Run_promote_def cand_def)

lemma Run_sync_state: "fst (snd (Run_sync env s)) = s"
  by (simp add: Run_sync_def seq_state emit_def Run_promote_state
      split: option.splits select_outcome.splits)

lemma Run_sync_skip: "SkipSync (Config (mc s)) \<Longrightarrow> Run_sync env s = ([Log LogSkippingSync], s, None)"
  by (simp add: Run_sync_def)

lemma Run_sync_events:
  "e \<in> set (fst (Run_sync env s)) \<Longrightarrow> \<not> is_serving e \<and> e \<noteq> EvServerServe"
  by (auto simp: Run_sync_def seq_fst emit_def is_serving_def
      split: option.splits select_outcome.splits if_splits
      dest!: Run_promote_events is_promotion_other)

lemma Run_sync_ready:
  "\<not> SkipSync (Config (mc s)) \<Longrightarrow> snd (snd (Run_sync env s)) = None \<Longrightarrow>
   EvSelectReady \<in> set (fst (Run_sync env s)) \<and> EvSelectCtxDone \<notin> set (fst (Run_sync env s))"
  by (auto simp: Run_sync_def seq_fst seq_result emit_def
      split: option.splits select_outcome.splits if_splits
      dest!: Run_promote_events is_promotion_other)

lemma Run_sync_canceled:
  "EvSelectCtxDone \<in> set (fst (Run_sync env s)) \<Longrightarrow>
   \<exists>cause. run_select env = CtxDone cause \<and> snd (snd (Run_sync env s)) = Some cause"
  by (auto simp: Run_sync_def seq_fst seq_result emit_def
      split: option.splits select_outcome.splits if_splits
      dest!: Run_promote_events is_promotion_other)

lemma Run_sync_noncandidate:
  "cand False s \<Longrightarrow>
   (\<forall>e \<in> set (fst (Run_sync env s)). \<not> is_promotion e) \<and>
   (Lease_Promote (Lease (Config (mc s))) \<and> EvSelectReady \<in> set (fst (Run_sync env s))
      \<longrightarrow> Log LogSkipAutoPromote \<in> set (fst (Run_sync env s)))"
  by (auto simp: Run_sync_def seq_fst emit_def Run_promote_noncandidate is_promotion_simps cand_def
      split: option.splits select_outcome.splits if_splits)

lemma executed_append: "executed (xs @ ys) = executed xs @ executed ys"
  by (induction xs) (auto split: event.splits)

lemma gated_from_True: "gated_from True es"
  by (induction es) simp_all

lemma gated_from_append:
  "gated_from r (xs @ ys) = (gated_from r xs \<and> gated_from (r \<or> EvSelectReady \<in> set xs) ys)"
  by (induction xs arbitrary: r) (auto simp: eq_commute [of EvSelectReady])

lemma gated_from_still: "\<forall>e \<in> set es. \<not> is_serving e \<Longrightarrow> gated_from r es"
  by (induction es arbitrary: r) simp_all

lemma gated_from_split:
  "gated_from False t \<Longrightarrow> t = pre @ e # post \<Longrightarrow> is_serving e \<Longrightarrow> EvSelectReady \<in> set pre"
  by (simp add: gated_from_append)

lemma exec_event_simps:
  "exec_event (Log (LogSkipCommand name args))" "exec_event (Log (LogExecuting name args))"
  "exec_event (Log (LogStarting name args))" "exec_event (EvCmdRun name args)"
  "exec_event (EvCmdStart name args)" "exec_event EvGoWait"
  by (simp_all add: exec_event_def is_promotion_def)

lemma execSyncCmd_facts:
  "fst (execSyncCmd env name args s) = [Log (LogExecuting name args), EvCmdRun name args]"
  "fst (snd (execSyncCmd env name args s)) = set_cmd name args s"
  by (simp_all add: execSyncCmd_def split: option.splits)

lemma execBackgroundCmd_facts:
  "executed (fst (execBackgroundCmd env name args s)) = [(name, args)]"
  "\<forall>e \<in> set (fst (execBackgroundCmd env name args s)). exec_event e"
  "fst (snd (execBackgroundCmd env name args s)) = set_cmd name args s"
  by (simp_all add: execBackgroundCmd_def exec_event_simps split: option.splits)

lemma set_cmd_fields:
  "Store (mc (set_cmd name args s)) = Store (mc s)"
  "Config (mc (set_cmd name args s)) = Config (mc s)"
  "ProxyServer (mc (set_cmd name args s)) = ProxyServer (mc s)"
  by (simp_all add: set_cmd_def)

lemma cand_set_cmd: "cand b (set_cmd name args s) = cand b s"
  by (simp add: cand_def set_cmd_fields)

lemma execCmds_from_events:
  "\<forall>e \<in> set (fst (execCmds_from env n i cfgs s)). exec_event e"
proof (induction cfgs arbitrary: i s)
  case Nil
  then show ?case by (simp add: emit_def)
next
  case (Cons config rest)
  show ?case
  proof (cases "shellwords_Parse env (Cmd config)")
    case (Inl err)
    then show ?thesis by simp
  next
    case (Inr argv)
    show ?thesis
    proof (cases argv)
      case Nil
      with Inr show ?thesis by simp
    next
      case (Cons name args)
      show ?thesis
      proof (cases "skip_command config s")
        case None
        with Inr Cons show ?thesis by simp
      next
        case (Some b)
        show ?thesis
        proof (cases b)
          case True
          with Cons.IH [of "Suc i" s] Inr Cons Some show ?thesis
            by (simp add: seq_fst emit_def exec_event_simps)
        next
          case False
          with Cons.IH [of "Suc i" "set_cmd name args s"] Inr Cons Some show ?thesis
            using execBackgroundCmd_facts(2) [of env name args s]
            by (auto simp: seq_fst execSyncCmd_facts execBackgroundCmd_facts(3) exec_event_simps
                split: if_split_asm)
        qed
      qed
    qed
  qed
qed

lemma execCmds_from_origin:
  "cand False s \<Longrightarrow>
   \<forall>x \<in> set (executed (fst (execCmds_from env n i cfgs s))).
     \<exists>config \<in> set cfgs. \<not> IfCandidate config \<and>
        shellwords_Parse env (Cmd config) = Inr (fst x # snd x)"
proof (induction cfgs arbitrary: i s)
  case Nil
  then show ?case by (simp add: emit_def)
next
  case (Cons config rest)
  have sk: "skip_command config s = Some (IfCandidate config)"
    using Cons.prems by (auto simp: skip_command_def cand_def)
  show ?case
  proof (cases "shellwords_Parse env (Cmd config)")
    case (Inl err)
    then show ?thesis by simp
  next
    case (Inr argv)
    show ?thesis
    proof (cases argv)
      case Nil
      with Inr show ?thesis by simp
    next
      case (Cons name args)
      show ?thesis
      proof (cases "IfCandidate config")
        case True
        with Cons.IH [OF Cons.prems, of "Suc i"] Inr Cons sk show ?thesis
          by (simp add: seq_fst emit_def)
      next
        case False
        have c: "cand False (set_cmd name args s)"
          using Cons.prems by (simp add: cand_set_cmd)
        from Cons.IH [OF c, of "Suc i"] Inr Cons sk False show ?thesis
          by (auto simp: seq_fst execSyncCmd_facts execBackgroundCmd_facts(1,3) executed_append
              split: if_split_asm)
      qed
    qed
  qed
qed

lemma execCmds_from_skip:
  assumes "Store (mc s) = Some st" and "\<not> Candidate st" and "IfCandidate config"
    and "shellwords_Parse env (Cmd config) = Inr (name # args)"
  shows "execCmds_from env n i (config # rest) s =
           (case execCmds_from env n (Suc i) rest s of
              (t, s', r) \<Rightarrow> (Log (LogSkipCommand name args) # t, s', r))"
  using assms by (simp add: skip_command_def seq_def emit_def)

lemma Run_proxy_facts:
  "fst (snd (Run_proxy s)) = s" "snd (snd (Run_proxy s)) = None"
  "fst (Run_proxy s) = (if ProxyServer (mc s) = None then [] else [EvProxyServe, Log LogProxyListening])"
  by (simp_all add: Run_proxy_def split: option.splits)

lemma Run_start_trace:
  "fst (Run_start env s) =
     (if ProxyServer (mc s) = None then [] else [EvProxyServe, Log LogProxyListening])
     @ (if Exec (Config (mc s)) = [] then [] else fst (execCmds env s))"
  by (simp add: Run_start_def seq_fst Run_proxy_facts Run_exec_def)

lemma Run_start_events:
  assumes "e \<in> set (fst (Run_start env s))"
  shows "\<not> is_promotion e \<and> e \<noteq> EvSelectReady \<and> e \<noteq> EvSelectCtxDone \<and> e \<noteq> EvServerServe"
proof -
  have "\<forall>e \<in> set (fst (execCmds env s)). exec_event e"
    by (simp add: execCmds_def execCmds_from_events)
  with assms have "exec_event e \<or> e = EvProxyServe \<or> e = Log LogProxyListening"
    by (auto simp: Run_start_trace split: if_splits)
  then show ?thesis
    by (auto simp: exec_event_def is_promotion_def)
qed

lemma Run_start_origin:
  assumes "cand False s"
  shows "\<forall>x \<in> set (executed (fst (Run_start env s))).
           \<exists>config \<in> set (Exec (Config (mc s))). \<not> IfCandidate config \<and>
              shellwords_Parse env (Cmd config) = Inr (fst x # snd x)"
  using execCmds_from_origin [OF assms, of env "length (Exec (Config (mc s)))" 0 "Exec (Config (mc s))"]
  by (auto simp: Run_start_trace execCmds_def executed_append)

lemma executed_still: "\<forall>e \<in> set t. \<not> is_serving e \<Longrightarrow> executed t = []"
  by (induction t) (auto simp: is_serving_def split: event.splits)

lemma seq_stop: "snd (snd (f s)) \<noteq> None \<Longrightarrow> seq f g s = f s"
  by (cases "f s") (auto simp: seq_def)

lemma seq_go:
  "snd (snd (f s)) = None \<Longrightarrow>
   seq f g s = (fst (f s) @ fst (g (fst (snd (f s)))), snd (g (fst (snd (f s)))))"
  by (cases "f s"; cases "g (fst (snd (f s)))") (auto simp: seq_def)

lemma Run_stop_setup:
  "snd (snd (Run_setup env s)) \<noteq> None \<Longrightarrow> Run env s = Run_setup env s"
  by (simp add: Run_decomp seq_stop)

lemma Run_stop_serve:
  assumes "snd (snd (Run_setup env s)) = None"
    and "snd (snd (Run_serve (fst (snd (Run_setup env s))))) \<noteq> None"
  shows "fst (Run env s) = fst (Run_setup env s) @ fst (Run_serve (fst (snd (Run_setup env s))))"
    and "snd (snd (Run env s)) = snd (snd (Run_serve (fst (snd (Run_setup env s)))))"
  using assms by (simp_all add: Run_decomp seq_go [of "Run_setup env"] seq_stop [of Run_serve])

lemma Run_stop_sync:
  assumes "snd (snd (Run_setup env s)) = None"
    and "snd (snd (Run_serve (fst (snd (Run_setup env s))))) = None"
    and "snd (snd (Run_sync env (fst (snd (Run_setup env s))))) \<noteq> None"
  shows "fst (Run env s) = fst (Run_setup env s) @ fst (Run_serve (fst (snd (Run_setup env s))))
           @ fst (Run_sync env (fst (snd (Run_setup env s))))"
    and "snd (snd (Run env s)) = snd (snd (Run_sync env (fst (snd (Run_setup env s)))))"
  using assms
  by (simp_all add: Run_decomp seq_go [of "Run_setup env"] seq_go [of Run_serve]
      seq_stop [of "Run_sync env"] Run_serve_state)

lemma Run_go:
  assumes "snd (snd (Run_setup env s)) = None"
    and "snd (snd (Run_serve (fst (snd (Run_setup env s))))) = None"
    and "snd (snd (Run_sync env (fst (snd (Run_setup env s))))) = None"
  shows "fst (Run env s) = fst (Run_setup env s) @ fst (Run_serve (fst (snd (Run_setup env s))))
           @ fst (Run_sync env (fst (snd (Run_setup env s))))
           @ fst (Run_start env (fst (snd (Run_setup env s))))"
    and "snd (snd (Run env s)) = snd (snd (Run_start env (fst (snd (Run_setup env s)))))"
  using assms
  by (simp_all add: Run_decomp seq_go [of "Run_setup env"] seq_go [of Run_serve]
      seq_go [of "Run_sync env"] Run_serve_state Run_sync_state)

lemma Run_setup_quiet: "\<forall>e \<in> set (fst (Run_setup env s)). quiet e"
  using emits_Run_setup [of env] by (simp add: emits_def)

lemma Run_setup_Config: "Config (mc (fst (snd (Run_setup env s)))) = Config (mc s)"
  using keeps_Run_setup [of "Config (mc s)" env] by (simp add: keeps_def)

lemma Run_serve_still: "\<forall>e \<in> set (fst (Run_serve s)). \<not> is_serving e \<and> \<not> is_promotion e \<and> e \<noteq> EvSelectReady \<and> e \<noteq> EvSelectCtxDone"
  by (auto simp: Run_serve_def is_serving_def is_promotion_def split: option.splits)

lemmas run_defs = Run_def seq_def emit_def wrap_def wrapf_def initStore_def initHTTPServer_def
  initProxyServer_def Run_leaser_def initConsul_def initConsul_hostname_def
  initConsul_advertiseURL_def initConsul_leaser_def consul_NewLeaser_def openStore_def
  expvarOnce_Do_def initFileSystem_def Run_serve_def Run_sync_def Run_promote_def promote_def
  Run_proxy_def Run_exec_def execCmds_def skip_command_def execSyncCmd_def
  execBackgroundCmd_def set_cmd_def Candidate_def NewStore_def fresh_def NewMountCommand_def
  LeaseTypeConsul_def LeaseTypeStatic_def Let_def word_sless_alt format_d_def nat_digits_small
  nat_digits_large digit_char_def duration_units

lemma Run_replica_trace:
  "fst (Run calm_env (fresh replica_config)) =
     [EvPrintVersion, EvServerListen, EvProxyListen, Log LogUsingConsul,
      EvLeaserOpen \<lparr>leaser_url = ''http://consul:8500'', leaser_key = ''litefs/primary'',
                    leaser_hostname = ''node2'', leaser_advertiseURL = ''http://node2:20202'',
                    TTL = 5000000000, LockDelay = 1000000000\<rparr>,
      Log (LogInitConsul ''litefs/primary'' ''http://consul:8500'' ''node2'' ''http://node2:20202''),
      EvStoreOpen, EvExpvarPublish,
      EvMount \<lparr>fs_path = ''/litefs'', fs_AllowOther = False, fs_Debug = False\<rparr>,
      Log (LogMounted ''/litefs''), EvServerServe, Log LogHTTPListening, Log LogWaiting,
      EvSelectReady, Log LogConnected, Log LogSkipAutoPromote, EvProxyServe,
      Log LogProxyListening, Log (LogSkipCommand ''migrate'' []), Log (LogStarting ''app'' []),
      EvCmdStart ''app'' [], EvGoWait]"
  by (simp add: run_defs replica_config_def calm_env_def)

lemma Run_canceled_trace:
  "fst (Run canceled_env (fresh replica_config)) =
     [EvPrintVersion, EvServerListen, EvProxyListen, Log LogUsingConsul,
      EvLeaserOpen \<lparr>leaser_url = ''http://consul:8500'', leaser_key = ''litefs/primary'',
                    leaser_hostname = ''node2'', leaser_advertiseURL = ''http://node2:20202'',
                    TTL = 5000000000, LockDelay = 1000000000\<rparr>,
      Log (LogInitConsul ''litefs/primary'' ''http://consul:8500'' ''node2'' ''http://node2:20202''),
      EvStoreOpen, EvExpvarPublish,
      EvMount \<lparr>fs_path = ''/litefs'', fs_AllowOther = False, fs_Debug = False\<rparr>,
      Log (LogMounted ''/litefs''), EvServerServe, Log LogHTTPListening, Log LogWaiting,
      EvSelectCtxDone]"
  by (simp add: run_defs replica_config_def calm_env_def canceled_env_def)

lemma Run_skip_trace:
  "fst (Run calm_env (fresh skip_config)) =
     [EvPrintVersion, EvServerListen, EvProxyListen, Log LogUsingConsul,
      EvLeaserOpen \<lparr>leaser_url = ''http://consul:8500'', leaser_key = ''litefs/primary'',
                    leaser_hostname = ''node2'', leaser_advertiseURL = ''http://node2:20202'',
                    TTL = 5000000000, LockDelay = 1000000000\<rparr>,
      Log (LogInitConsul ''litefs/primary'' ''http://consul:8500'' ''node2'' ''http://node2:20202''),
      EvStoreOpen, EvExpvarPublish,
      EvMount \<lparr>fs_path = ''/litefs'', fs_AllowOther = False, fs_Debug = False\<rparr>,
      Log (LogMounted ''/litefs''), EvServerServe, Log LogHTTPListening, Log LogSkippingSync,
      EvProxyServe, Log LogProxyListening, Log (LogExecuting ''migrate'' []),
      EvCmdRun ''migrate'' [], Log (LogStarting ''app'' []), EvCmdStart ''app'' [], EvGoWait]"
  by (simp add: run_defs skip_config_def candidate_config_def replica_config_def calm_env_def)

lemma fresh_Config: "Config (mc (fresh cfg)) = cfg"
  by (simp add: fresh_def NewMountCommand_def)

subsection \<open>Validate\<close>

text \<open>
  Claim C5. \<open>Validate\<close> returns an error exactly when the FUSE directory is empty, the
  data directory is empty, the two directories are equal, or the lease type is neither
  \<open>consul\<close> nor \<open>static\<close>; otherwise it returns nil. On such an error the startup path
  returns it with no event performed and the state untouched.
\<close>

theorem Validate_error_iff:
  "((Validate (mc s) \<noteq> None) =
      (FUSE_Dir (FUSE (Config (mc s))) = [] \<or> Data_Dir (Data (Config (mc s))) = [] \<or>
       FUSE_Dir (FUSE (Config (mc s))) = Data_Dir (Data (Config (mc s))) \<or>
       (Lease_Type (Lease (Config (mc s))) \<noteq> ''consul'' \<and>
        Lease_Type (Lease (Config (mc s))) \<noteq> ''static''))) \<and>
   (\<forall>err. Validate (mc s) = Some err \<longrightarrow> startup env s = ([], s, Some err))"
  by (simp add: Validate_def IsValidLeaseType_def LeaseTypeConsul_def LeaseTypeStatic_def
      startup_def)

theorem Validate_error_iff_witness:
  "Validate (mc (fresh same_dir_config)) = Some SameDirectory \<and>
   startup calm_env (fresh same_dir_config) = ([], fresh same_dir_config, Some SameDirectory) \<and>
   Validate (mc (fresh replica_config)) = None"
proof -
  have v: "Validate (mc (fresh same_dir_config)) = Some SameDirectory"
    by (simp add: Validate_def fresh_def NewMountCommand_def same_dir_config_def
        replica_config_def)
  have n: "Validate (mc (fresh replica_config)) = None"
    using Validate_error_iff [of "fresh replica_config" calm_env]
    by (simp add: fresh_def NewMountCommand_def replica_config_def)
  show ?thesis
    using Validate_error_iff [of "fresh same_dir_config" calm_env] v n by simp
qed

subsection \<open>promote\<close>

text \<open>
  Claim C2. When the store reports itself primary, \<open>promote\<close> returns nil at once: it
  asks for the primary information, logs, and sends no handoff request.
\<close>

theorem promote_already_primary:
  assumes "Store (mc s) = Some st" and "fst (store_PrimaryInfo env)"
  shows "promote env s = ([EvPrimaryInfo, Log LogAlreadyPrimary], s, None) \<and>
         (\<forall>u i. EvHandoff u i \<notin> set (fst (promote env s)))"
  using assms by (auto simp: promote_def split: prod.splits)

theorem promote_already_primary_witness:
  "fst (store_PrimaryInfo primary_env) \<and>
   promote primary_env (stored candidate_config)
     = ([EvPrimaryInfo, Log LogAlreadyPrimary], stored candidate_config, None)"
  using promote_already_primary [of "stored candidate_config" _ primary_env]
  by (simp add: store_stored primary_env_def calm_env_def)

text \<open>
  Claim C3. After a successful handoff request \<open>promote\<close> creates a ticker of 1 ms
  (1000000 ns) and a timeout ticker of 10 s (10000000000 ns), asks \<open>IsPrimary()\<close> once per
  tick it receives, stops at the first tick that answers true and returns nil then; if
  the timeout ticker delivers before any tick has answered true, it returns the
  promotion-timeout error.
\<close>

theorem promote_poll:
  assumes "Store (mc s) = Some st" and "\<not> fst (store_PrimaryInfo env)"
    and "client_Handoff env = None"
  shows "(\<forall>d. (EvNewTicker TickerT d \<in> set (fst (promote env s))) = (d = 1000000)) \<and>
         (\<forall>d. (EvNewTicker TimeoutT d \<in> set (fst (promote env s))) = (d = 10000000000)) \<and>
         polls (fst (promote env s))
           = takeWhile Not (ticks (promote_timeline env))
             @ take 1 (dropWhile Not (ticks (promote_timeline env))) \<and>
         snd (snd (promote env s))
           = (if True \<in> set (ticks (promote_timeline env)) then None
              else Some TimedOutWaitingForPromotion)"
proof -
  obtain t r where w: "wait_primary (promote_timeline env) = (t, r)"
    by (cases "wait_primary (promote_timeline env)")
  have p: "promote env s =
      ([EvPrimaryInfo, EvHandoff (snd (store_PrimaryInfo env)) (store_ID env),
        EvNewTicker TickerT (1 * Millisecond), EvNewTicker TimeoutT (10 * Second)]
       @ t @ [EvTickerStop TimeoutT, EvTickerStop TickerT], s, r)"
    using assms w by (cases "store_PrimaryInfo env") (simp add: promote_def)
  have nt: "\<And>k d. EvNewTicker k d \<notin> set t"
    using wait_primary_no_ticker [of _ _ "promote_timeline env"] w by simp
  have pt: "polls t = takeWhile Not (ticks (promote_timeline env))
             @ take 1 (dropWhile Not (ticks (promote_timeline env)))"
    using wait_primary_polls [of "promote_timeline env"] w by simp
  have rt: "r = (if True \<in> set (ticks (promote_timeline env)) then None
              else Some TimedOutWaitingForPromotion)"
    using wait_primary_result [of "promote_timeline env"] w by simp
  show ?thesis
    using nt pt rt by (auto simp: p duration_units polls_append)
qed

theorem promote_poll_witness:
  "\<not> fst (store_PrimaryInfo promoted_env) \<and> client_Handoff promoted_env = None \<and>
   polls (fst (promote promoted_env (stored candidate_config))) = [False, True] \<and>
   snd (snd (promote promoted_env (stored candidate_config))) = None \<and>
   snd (snd (promote calm_env (stored candidate_config))) = Some TimedOutWaitingForPromotion"
  using promote_poll [of "stored candidate_config" _ promoted_env]
        promote_poll [of "stored candidate_config" _ calm_env]
  by (simp add: store_stored promoted_env_def calm_env_def)

text \<open>
  Claim C4, evaluated on the code. The handoff succeeds, the node is not primary, one tick
  answers false, the context is canceled, a second tick answers false, and the timeout
  ticker delivers: \<open>promote\<close> returns the promotion-timeout error, not the cancellation
  cause.
\<close>

theorem promote_after_cancellation:
  "client_Handoff calm_env = None \<and>
   promote_timeline calm_env
     = [Tick False, CtxCanceled (Foreign ''context canceled''), Tick False] \<and>
   snd (snd (promote calm_env (stored candidate_config))) = Some TimedOutWaitingForPromotion \<and>
   snd (snd (promote calm_env (stored candidate_config))) \<noteq> Some (Foreign ''context canceled'')"
  by (simp add: promote_def store_stored calm_env_def)

subsection \<open>initConsul\<close>

text \<open>
  Claim C6. With no injected \<open>AdvertiseURLFn\<close> and the hostname \<open>h\<close> (the configured one,
  or the operating system's when none is configured): if the configured advertise URL is
  empty and \<open>h\<close> is not, the leaser is built with the advertise URL
  \<open>"http://" + h + ":" + port\<close>, which is not empty; a configured advertise URL that is
  not empty is passed to the leaser unchanged.
\<close>

theorem initConsul_advertise_url:
  assumes "AdvertiseURLFn (mc s) = None"
    and "Lease_Hostname (Lease (Config (mc s))) \<noteq> [] \<and> h = Lease_Hostname (Lease (Config (mc s)))
         \<or> Lease_Hostname (Lease (Config (mc s))) = [] \<and> os_Hostname env = Inr h"
  shows "(Lease_AdvertiseURL (Lease (Config (mc s))) = [] \<and> h \<noteq> [] \<and> HTTPServer (mc s) \<noteq> None \<longrightarrow>
            map leaser_advertiseURL (opened (fst (initConsul env s)))
              = [''http://'' @ h @ '':'' @ format_d (server_Port env)] \<and>
            ''http://'' @ h @ '':'' @ format_d (server_Port env) \<noteq> []) \<and>
         (Lease_AdvertiseURL (Lease (Config (mc s))) \<noteq> [] \<longrightarrow>
            map leaser_advertiseURL (opened (fst (initConsul env s)))
              = [Lease_AdvertiseURL (Lease (Config (mc s)))])"
proof -
  have hn: "snd (initConsul_hostname env s) = Inr h"
    using assms(2) by (auto simp: initConsul_hostname_def Let_def)
  have au: "leaser_advertiseURL (initConsul_leaser env s h a) = a" for a
    by (simp add: initConsul_leaser_def consul_NewLeaser_def Let_def)
  show ?thesis
    using assms(1) by (auto simp: initConsul_opened hn au initConsul_advertiseURL_def Let_def)
qed

theorem initConsul_advertise_url_witness:
  "map leaser_advertiseURL (opened (fst (initConsul calm_env (listening replica_config))))
     = [''http://node2:20202''] \<and>
   map leaser_advertiseURL (opened (fst (initConsul calm_env (listening advertised_config))))
     = [''http://a:1'']"
proof -
  have p: "server_Port calm_env = 20202"
    by (simp add: calm_env_def)
  have a: "map leaser_advertiseURL (opened (fst (initConsul calm_env (listening replica_config))))
     = [''http://node2:20202'']"
    using initConsul_advertise_url [of "listening replica_config" "''node2''" calm_env]
    by (simp add: listening_fields replica_config_def p format_d_20202)
  have b: "map leaser_advertiseURL (opened (fst (initConsul calm_env (listening advertised_config))))
     = [''http://a:1'']"
    using initConsul_advertise_url [of "listening advertised_config" "''node2''" calm_env]
    by (simp add: listening_fields advertised_config_def replica_config_def)
  show ?thesis using a b by simp
qed

text \<open>
  Claim C8. The leaser that \<open>initConsul\<close> opens has the configured TTL exactly when that
  is strictly positive and the default TTL otherwise (zero or negative), and the same for
  LockDelay; when \<open>initConsul\<close> returns nil this leaser is the command's leaser.
\<close>

theorem initConsul_ttl_lock_delay:
  "(\<forall>l \<in> set (opened (fst (initConsul env s))).
      TTL l = (if 0 < sint (Consul_TTL (Lease_Consul (Lease (Config (mc s)))))
               then Consul_TTL (Lease_Consul (Lease (Config (mc s))))
               else consul_DefaultTTL env) \<and>
      LockDelay l = (if 0 < sint (Consul_LockDelay (Lease_Consul (Lease (Config (mc s)))))
               then Consul_LockDelay (Lease_Consul (Lease (Config (mc s))))
               else consul_DefaultLockDelay env)) \<and>
   (snd (snd (initConsul env s)) = None \<longrightarrow>
      (\<exists>l. opened (fst (initConsul env s)) = [l] \<and>
           Leaser (mc (fst (snd (initConsul env s)))) = Some (ConsulLeaserOf l)))"
proof -
  have f: "TTL (initConsul_leaser env s h a) = (if 0 < sint (Consul_TTL (Lease_Consul (Lease (Config (mc s)))))
               then Consul_TTL (Lease_Consul (Lease (Config (mc s))))
               else consul_DefaultTTL env)"
     "LockDelay (initConsul_leaser env s h a) = (if 0 < sint (Consul_LockDelay (Lease_Consul (Lease (Config (mc s)))))
               then Consul_LockDelay (Lease_Consul (Lease (Config (mc s))))
               else consul_DefaultLockDelay env)" for h a
    by (simp_all add: initConsul_leaser_def consul_NewLeaser_def Let_def word_sless_alt)
  show ?thesis
    using initConsul_Leaser [of env s]
    by (auto simp: initConsul_opened f split: sum.splits)
qed

theorem initConsul_ttl_lock_delay_witness:
  "map TTL (opened (fst (initConsul calm_env (listening replica_config)))) = [5000000000] \<and>
   map LockDelay (opened (fst (initConsul calm_env (listening replica_config)))) = [1000000000] \<and>
   map TTL (opened (fst (initConsul calm_env (listening negative_config)))) = [10000000000] \<and>
   map LockDelay (opened (fst (initConsul calm_env (listening negative_config)))) = [2000000000]"
proof -
  have o: "snd (snd (initConsul calm_env (listening cfg))) = None" if "Lease_Hostname (Lease cfg) \<noteq> []" for cfg
    using that
    by (simp add: initConsul_def initConsul_hostname_def initConsul_advertiseURL_def
        listening_fields Let_def calm_env_def)
  have a: "map TTL (opened (fst (initConsul calm_env (listening replica_config)))) = [5000000000] \<and>
   map LockDelay (opened (fst (initConsul calm_env (listening replica_config)))) = [1000000000]"
    using initConsul_ttl_lock_delay [of calm_env "listening replica_config"] o [of replica_config]
    by (auto simp: listening_fields replica_config_def calm_env_def)
  have b: "map TTL (opened (fst (initConsul calm_env (listening negative_config)))) = [10000000000] \<and>
   map LockDelay (opened (fst (initConsul calm_env (listening negative_config)))) = [2000000000]"
    using initConsul_ttl_lock_delay [of calm_env "listening negative_config"] o [of negative_config]
    by (auto simp: listening_fields negative_config_def replica_config_def calm_env_def)
  show ?thesis using a b by simp
qed

subsection \<open>openStore\<close>

text \<open>
  Claim C9, as stated, fails when the store does not open in the first call: that call
  returns before \<open>expvarOnce.Do\<close>, and the second call publishes.
\<close>

theorem expvar_first_call_counterexample:
  "EvExpvarPublish \<notin> set (openStore_calls False retried_calls ! 0) \<and>
   EvExpvarPublish \<in> set (openStore_calls False retried_calls ! 1)"
  by (simp add: retried_calls_def openStore_calls_Cons openStore_trace reaches_once_def
      store_stored closed_env_def calm_env_def del: openStore_calls.simps(2))

text \<open>
  Claim C9, amended. In every sequence of calls of \<open>openStore\<close> in a process the metric is
  published at most once: by the first call in which the store opens, and by no other.
\<close>

theorem expvar_published_once:
  "length (filter (\<lambda>e. e = EvExpvarPublish) (concat (openStore_calls False calls))) \<le> 1 \<and>
   (\<forall>i<length calls.
      (EvExpvarPublish \<in> set (openStore_calls False calls ! i)) =
        (reaches_once (calls ! i) \<and> (\<forall>j<i. \<not> reaches_once (calls ! j))))"
  using publish_count [of False calls] by (simp add: publish_iff)

theorem expvar_published_once_witness:
  "EvExpvarPublish \<in> set (openStore_calls False retried_calls ! 1) \<and>
   EvExpvarPublish \<notin> set (openStore_calls False retried_calls ! 2)"
proof -
  have r: "\<not> reaches_once (retried_calls ! 0)" "reaches_once (retried_calls ! 1)"
    by (simp_all add: retried_calls_def reaches_once_def store_stored closed_env_def
        calm_env_def)
  have l: "length retried_calls = 3"
    by (simp add: retried_calls_def)
  have a: "\<forall>i<3. (EvExpvarPublish \<in> set (openStore_calls False retried_calls ! i)) =
        (reaches_once (retried_calls ! i) \<and> (\<forall>j<i. \<not> reaches_once (retried_calls ! j)))"
    using expvar_published_once [of retried_calls] l by simp
  have "EvExpvarPublish \<in> set (openStore_calls False retried_calls ! 1)"
    using a r by simp
  moreover have "\<exists>j<2. reaches_once (retried_calls ! j)"
    using r(2) by (intro exI [of _ 1]) simp
  then have "EvExpvarPublish \<notin> set (openStore_calls False retried_calls ! 2)"
    using a by simp
  ultimately show ?thesis by simp
qed

subsection \<open>Run and execCmds\<close>

text \<open>
  Claim C1. When \<open>Config.SkipSync\<close> is false, every serving step in the trace of \<open>Run\<close>
  (the proxy server's \<open>Serve\<close>, a subcommand run or started) comes after the select
  statement has received from the store's \<open>ReadyCh\<close>; and when the select statement
  receives from \<open>ctx.Done()\<close> instead, \<open>Run\<close> returns the context's cause and the trace
  has no serving step at all.
\<close>

theorem Run_readiness_barrier:
  assumes "\<not> SkipSync (Config (mc s))"
  shows "(\<forall>pre e post. fst (Run env s) = pre @ e # post \<and> is_serving e
            \<longrightarrow> EvSelectReady \<in> set pre) \<and>
         (EvSelectCtxDone \<in> set (fst (Run env s)) \<longrightarrow>
            (\<exists>cause. run_select env = CtxDone cause \<and> snd (snd (Run env s)) = Some cause) \<and>
            (\<forall>e \<in> set (fst (Run env s)). \<not> is_serving e))"
proof -
  define s1 where "s1 = fst (snd (Run_setup env s))"
  define t1 where "t1 = fst (Run_setup env s)"
  define t2 where "t2 = fst (Run_serve s1)"
  define t3 where "t3 = fst (Run_sync env s1)"
  define t4 where "t4 = fst (Run_start env s1)"
  have ns: "\<not> SkipSync (Config (mc s1))"
    using assms by (simp add: s1_def Run_setup_Config)
  have q1: "\<forall>e \<in> set t1. \<not> is_serving e \<and> e \<noteq> EvSelectCtxDone"
    using Run_setup_quiet [of env s] by (simp add: t1_def quiet_def)
  have q2: "\<forall>e \<in> set t2. \<not> is_serving e \<and> e \<noteq> EvSelectCtxDone"
    using Run_serve_still [of s1] by (simp add: t2_def)
  have q3: "\<forall>e \<in> set t3. \<not> is_serving e"
    using Run_sync_events [of _ env s1] by (auto simp: t3_def)
  have q4: "EvSelectCtxDone \<notin> set t4"
    using Run_start_events [of EvSelectCtxDone env s1] by (auto simp: t4_def)
  consider (a) "snd (snd (Run_setup env s)) \<noteq> None"
    | (b) "snd (snd (Run_setup env s)) = None" "snd (snd (Run_serve s1)) \<noteq> None"
    | (c) "snd (snd (Run_setup env s)) = None" "snd (snd (Run_serve s1)) = None"
          "snd (snd (Run_sync env s1)) \<noteq> None"
    | (d) "snd (snd (Run_setup env s)) = None" "snd (snd (Run_serve s1)) = None"
          "snd (snd (Run_sync env s1)) = None"
    by blast
  then have "gated_from False (fst (Run env s)) \<and>
         (EvSelectCtxDone \<in> set (fst (Run env s)) \<longrightarrow>
            (\<exists>cause. run_select env = CtxDone cause \<and> snd (snd (Run env s)) = Some cause) \<and>
            (\<forall>e \<in> set (fst (Run env s)). \<not> is_serving e))"
  proof cases
    case a
    then have "fst (Run env s) = t1"
      by (simp add: Run_stop_setup t1_def)
    with q1 show ?thesis
      by (auto simp: gated_from_still)
  next
    case b
    then have "fst (Run env s) = t1 @ t2"
      by (simp add: Run_stop_serve t1_def t2_def s1_def)
    with q1 q2 show ?thesis
      by (auto simp: gated_from_append gated_from_still)
  next
    case c
    then have t: "fst (Run env s) = t1 @ t2 @ t3" and r: "snd (snd (Run env s)) = snd (snd (Run_sync env s1))"
      by (simp_all add: Run_stop_sync t1_def t2_def t3_def s1_def)
    have "EvSelectCtxDone \<in> set t3 \<Longrightarrow>
        \<exists>cause. run_select env = CtxDone cause \<and> snd (snd (Run_sync env s1)) = Some cause"
      using Run_sync_canceled [of env s1] by (simp add: t3_def)
    with q1 q2 q3 show ?thesis
      by (auto simp: t r gated_from_append gated_from_still)
  next
    case d
    then have t: "fst (Run env s) = t1 @ t2 @ t3 @ t4"
      by (simp add: Run_go t1_def t2_def t3_def t4_def s1_def)
    have "EvSelectReady \<in> set t3 \<and> EvSelectCtxDone \<notin> set t3"
      using Run_sync_ready [OF ns d(3)] by (simp add: t3_def)
    with q1 q2 q3 q4 show ?thesis
      by (auto simp: t gated_from_append gated_from_still gated_from_True)
  qed
  then show ?thesis
    using gated_from_split [of "fst (Run env s)"] by blast
qed

theorem Run_readiness_barrier_witness:
  "\<not> SkipSync (Config (mc (fresh replica_config))) \<and>
   filter is_serving (fst (Run calm_env (fresh replica_config)))
     = [EvProxyServe, EvCmdStart ''app'' []] \<and>
   EvSelectReady \<in> set (takeWhile (\<lambda>e. e \<noteq> EvProxyServe) (fst (Run calm_env (fresh replica_config)))) \<and>
   EvSelectCtxDone \<in> set (fst (Run canceled_env (fresh replica_config))) \<and>
   snd (snd (Run canceled_env (fresh replica_config))) = Some (Foreign ''context canceled'') \<and>
   filter is_serving (fst (Run canceled_env (fresh replica_config))) = []"
proof -
  let ?t = "fst (Run calm_env (fresh replica_config))"
  have ns: "\<not> SkipSync (Config (mc (fresh replica_config)))"
    by (simp add: fresh_Config replica_config_def)
  have sp: "?t = takeWhile (\<lambda>e. e \<noteq> EvProxyServe) ?t @ EvProxyServe # tl (dropWhile (\<lambda>e. e \<noteq> EvProxyServe) ?t)"
    by (simp add: Run_replica_trace)
  have sv: "is_serving EvProxyServe"
    by (simp add: is_serving_def)
  have "EvSelectReady \<in> set (takeWhile (\<lambda>e. e \<noteq> EvProxyServe) ?t)"
    using Run_readiness_barrier [OF ns, of calm_env, THEN conjunct1, rule_format,
        OF conjI [OF sp sv]] .
  moreover have "filter is_serving ?t = [EvProxyServe, EvCmdStart ''app'' []]"
    by (simp add: Run_replica_trace is_serving_def)
  moreover have "EvSelectCtxDone \<in> set (fst (Run canceled_env (fresh replica_config)))"
    by (simp add: Run_canceled_trace)
  moreover from this have "snd (snd (Run canceled_env (fresh replica_config))) = Some (Foreign ''context canceled'') \<and>
   (\<forall>e \<in> set (fst (Run canceled_env (fresh replica_config))). \<not> is_serving e)"
    using Run_readiness_barrier [OF ns, of canceled_env]
    by (simp add: canceled_env_def)
  ultimately show ?thesis
    using ns by (simp add: filter_empty_conv)
qed

text \<open>
  Claim C10. When \<open>Config.SkipSync\<close> is true, the trace of \<open>Run\<close> has no receive of the
  select statement and no step of \<open>promote\<close>, whatever the promote flag and the candidate
  flag are; and once the HTTP server serves, what follows is the two log lines, then the
  proxy server's \<open>Serve\<close> if there is a proxy server, then the exec commands if any are
  configured.
\<close>

theorem Run_skip_sync:
  assumes "SkipSync (Config (mc s))"
  shows "(\<forall>e \<in> set (fst (Run env s)).
            e \<noteq> EvSelectReady \<and> e \<noteq> EvSelectCtxDone \<and> \<not> is_promotion e) \<and>
         (EvServerServe \<in> set (fst (Run env s)) \<longrightarrow>
            (\<exists>pre. EvServerServe \<notin> set pre \<and>
               fst (Run env s) =
                 pre @ [EvServerServe, Log LogHTTPListening, Log LogSkippingSync]
                 @ (if ProxyServer (mc (fst (snd (Run_setup env s)))) = None then []
                    else [EvProxyServe, Log LogProxyListening])
                 @ (if Exec (Config (mc s)) = [] then []
                    else fst (execCmds env (fst (snd (Run_setup env s)))))))"
proof -
  define s1 where "s1 = fst (snd (Run_setup env s))"
  define t1 where "t1 = fst (Run_setup env s)"
  define t2 where "t2 = fst (Run_serve s1)"
  define t4 where "t4 = fst (Run_start env s1)"
  have c: "Config (mc s1) = Config (mc s)"
    by (simp add: s1_def Run_setup_Config)
  have sy: "Run_sync env s1 = ([Log LogSkippingSync], s1, None)"
    using assms c by (simp add: Run_sync_skip)
  have q1: "\<forall>e \<in> set t1. quiet e"
    using Run_setup_quiet [of env s] by (simp add: t1_def)
  have q2: "\<forall>e \<in> set t2. \<not> is_promotion e \<and> e \<noteq> EvSelectReady \<and> e \<noteq> EvSelectCtxDone"
    using Run_serve_still [of s1] by (simp add: t2_def)
  have q4: "\<forall>e \<in> set t4. \<not> is_promotion e \<and> e \<noteq> EvSelectReady \<and> e \<noteq> EvSelectCtxDone"
    using Run_start_events [of _ env s1] by (simp add: t4_def)
  have t4: "t4 = (if ProxyServer (mc s1) = None then [] else [EvProxyServe, Log LogProxyListening])
                 @ (if Exec (Config (mc s)) = [] then [] else fst (execCmds env s1))"
    by (simp add: t4_def Run_start_trace c)
  consider (a) "snd (snd (Run_setup env s)) \<noteq> None"
    | (b) "snd (snd (Run_setup env s)) = None" "snd (snd (Run_serve s1)) \<noteq> None"
    | (d) "snd (snd (Run_setup env s)) = None" "snd (snd (Run_serve s1)) = None"
    by blast
  then have "(\<forall>e \<in> set (fst (Run env s)).
            e \<noteq> EvSelectReady \<and> e \<noteq> EvSelectCtxDone \<and> \<not> is_promotion e) \<and>
         (EvServerServe \<in> set (fst (Run env s)) \<longrightarrow>
            (\<exists>pre. EvServerServe \<notin> set pre \<and>
               fst (Run env s) =
                 pre @ [EvServerServe, Log LogHTTPListening, Log LogSkippingSync] @ t4))"
  proof cases
    case a
    then have "fst (Run env s) = t1"
      by (simp add: Run_stop_setup t1_def)
    with q1 show ?thesis
      by (auto simp: quiet_def)
  next
    case b
    then have t: "fst (Run env s) = t1 @ t2"
      by (simp add: Run_stop_serve t1_def t2_def s1_def)
    have "\<forall>e \<in> set t2. quiet e"
      using Run_serve_fail [OF b(2)] by (simp add: t2_def)
    with q1 show ?thesis
      by (auto simp: t quiet_def)
  next
    case d
    have t: "fst (Run env s) = t1 @ t2 @ [Log LogSkippingSync] @ t4"
      using d sy Run_go(1) [of env s] by (simp add: t1_def t2_def t4_def s1_def)
    obtain p where p: "t2 = [Log (LogMounted p), EvServerServe, Log LogHTTPListening]"
      using Run_serve_ok [OF d(2)] by (auto simp: t2_def)
    have "EvServerServe \<notin> set (t1 @ [Log (LogMounted p)])"
      using q1 by (auto simp: quiet_def)
    moreover have "fst (Run env s) =
        (t1 @ [Log (LogMounted p)]) @ [EvServerServe, Log LogHTTPListening, Log LogSkippingSync] @ t4"
      by (simp add: t p)
    ultimately have "\<exists>pre. EvServerServe \<notin> set pre \<and>
               fst (Run env s) =
                 pre @ [EvServerServe, Log LogHTTPListening, Log LogSkippingSync] @ t4"
      by blast
    moreover have "\<forall>e \<in> set (fst (Run env s)).
            e \<noteq> EvSelectReady \<and> e \<noteq> EvSelectCtxDone \<and> \<not> is_promotion e"
      using q1 q2 q4 by (auto simp: t quiet_def is_promotion_simps)
    ultimately show ?thesis
      by simp
  qed
  then show ?thesis
    unfolding t4 s1_def .
qed

theorem Run_skip_sync_witness:
  "SkipSync (Config (mc (fresh skip_config))) \<and>
   Lease_Promote (Lease (Config (mc (fresh skip_config)))) \<and>
   Lease_Candidate (Lease (Config (mc (fresh skip_config)))) \<and>
   EvServerServe \<in> set (fst (Run calm_env (fresh skip_config))) \<and>
   filter (\<lambda>e. e = EvSelectReady \<or> e = EvSelectCtxDone \<or> is_promotion e)
     (fst (Run calm_env (fresh skip_config))) = [] \<and>
   filter is_serving (fst (Run calm_env (fresh skip_config)))
     = [EvProxyServe, EvCmdRun ''migrate'' [], EvCmdStart ''app'' []]"
proof -
  have sk: "SkipSync (Config (mc (fresh skip_config)))"
    by (simp add: fresh_Config skip_config_def)
  have "Lease_Promote (Lease (Config (mc (fresh skip_config)))) \<and>
        Lease_Candidate (Lease (Config (mc (fresh skip_config))))"
    by (simp add: fresh_Config skip_config_def candidate_config_def replica_config_def)
  moreover have "EvServerServe \<in> set (fst (Run calm_env (fresh skip_config)))"
    by (simp add: Run_skip_trace)
  moreover have "filter is_serving (fst (Run calm_env (fresh skip_config)))
     = [EvProxyServe, EvCmdRun ''migrate'' [], EvCmdStart ''app'' []]"
    by (simp add: Run_skip_trace is_serving_def)
  moreover have "filter (\<lambda>e. e = EvSelectReady \<or> e = EvSelectCtxDone \<or> is_promotion e)
     (fst (Run calm_env (fresh skip_config))) = []"
    using Run_skip_sync [OF sk, of calm_env] by (simp add: filter_empty_conv)
  ultimately show ?thesis
    using sk by simp
qed

text \<open>
  Claim C7, as stated, fails for a candidate-only command whose command line does not
  parse: on a non-candidate \<open>execCmds\<close> returns the parse error before it looks at the
  candidate flag, and the remaining command is not executed.
\<close>

theorem candidate_only_parse_error_counterexample:
  "\<not> Lease_Candidate (Lease (Config (mc (fresh unparsable_config)))) \<and>
   map IfCandidate (Exec (Config (mc (fresh unparsable_config)))) = [True, False] \<and>
   snd (snd (Run calm_env (fresh unparsable_config)))
     = Some (Wrapped ''cannot exec''
              (CannotParseExecCommand 0 (Foreign ''invalid command line string''))) \<and>
   executed (fst (Run calm_env (fresh unparsable_config))) = []"
  by (simp add: run_defs unparsable_config_def replica_config_def calm_env_def)

text \<open>
  Claim C7, amended. On a node configured as a non-candidate, for every run of the mount
  command: no step of \<open>promote\<close> is performed, and after the readiness signal with the
  promote flag set the skip is logged; every command that is run or started comes from
  an exec entry that is not candidate-only; and at a candidate-only entry whose command
  line parses to at least one word the loop only logs the skip and goes on with the
  remaining entries.
\<close>

theorem noncandidate_skips:
  assumes "\<not> Lease_Candidate (Lease (Config (mc s)))"
  shows "(\<forall>e \<in> set (fst (Run env s)). \<not> is_promotion e) \<and>
         (Lease_Promote (Lease (Config (mc s))) \<and> EvSelectReady \<in> set (fst (Run env s))
            \<longrightarrow> Log LogSkipAutoPromote \<in> set (fst (Run env s))) \<and>
         (\<forall>x \<in> set (executed (fst (Run env s))).
            \<exists>config \<in> set (Exec (Config (mc s))). \<not> IfCandidate config \<and>
               shellwords_Parse env (Cmd config) = Inr (fst x # snd x)) \<and>
         (Store (mc s1) = Some st \<and> \<not> Candidate st \<and> IfCandidate config \<and>
          shellwords_Parse env (Cmd config) = Inr (name # args) \<longrightarrow>
            execCmds_from env n i (config # rest) s1 =
              (case execCmds_from env n (Suc i) rest s1 of
                 (t, s2, r) \<Rightarrow> (Log (LogSkipCommand name args) # t, s2, r)))"
proof -
  define s0 where "s0 = fst (snd (Run_setup env s))"
  define t1 where "t1 = fst (Run_setup env s)"
  define t2 where "t2 = fst (Run_serve s0)"
  define t3 where "t3 = fst (Run_sync env s0)"
  define t4 where "t4 = fst (Run_start env s0)"
  have cfg: "Config (mc s0) = Config (mc s)"
    by (simp add: s0_def Run_setup_Config)
  have q1: "\<forall>e \<in> set t1. \<not> is_serving e \<and> \<not> is_promotion e \<and> e \<noteq> EvSelectReady"
    using Run_setup_quiet [of env s] by (simp add: t1_def quiet_def)
  have q2: "\<forall>e \<in> set t2. \<not> is_serving e \<and> \<not> is_promotion e \<and> e \<noteq> EvSelectReady"
    using Run_serve_still [of s0] by (simp add: t2_def)
  have q3: "\<forall>e \<in> set t3. \<not> is_serving e"
    using Run_sync_events [of _ env s0] by (auto simp: t3_def)
  have q4: "\<forall>e \<in> set t4. \<not> is_promotion e \<and> e \<noteq> EvSelectReady"
    using Run_start_events [of _ env s0] by (simp add: t4_def)
  have e1: "executed t1 = []" "executed t2 = []" "executed t3 = []"
    using q1 q2 q3 by (simp_all add: executed_still)
  consider (a) "snd (snd (Run_setup env s)) \<noteq> None"
    | (b) "snd (snd (Run_setup env s)) = None" "snd (snd (Run_serve s0)) \<noteq> None"
    | (c) "snd (snd (Run_setup env s)) = None" "snd (snd (Run_serve s0)) = None"
          "snd (snd (Run_sync env s0)) \<noteq> None"
    | (d) "snd (snd (Run_setup env s)) = None" "snd (snd (Run_serve s0)) = None"
          "snd (snd (Run_sync env s0)) = None"
    by blast
  then have "(\<forall>e \<in> set (fst (Run env s)). \<not> is_promotion e) \<and>
         (Lease_Promote (Lease (Config (mc s))) \<and> EvSelectReady \<in> set (fst (Run env s))
            \<longrightarrow> Log LogSkipAutoPromote \<in> set (fst (Run env s))) \<and>
         (\<forall>x \<in> set (executed (fst (Run env s))).
            \<exists>config \<in> set (Exec (Config (mc s))). \<not> IfCandidate config \<and>
               shellwords_Parse env (Cmd config) = Inr (fst x # snd x))"
  proof cases
    case a
    then have "fst (Run env s) = t1"
      by (simp add: Run_stop_setup t1_def)
    with q1 e1 show ?thesis
      by auto
  next
    case b
    then have "fst (Run env s) = t1 @ t2"
      by (simp add: Run_stop_serve t1_def t2_def s0_def)
    with q1 q2 e1 show ?thesis
      by (auto simp: executed_append)
  next
    case c
    then have t: "fst (Run env s) = t1 @ t2 @ t3"
      by (simp add: Run_stop_sync t1_def t2_def t3_def s0_def)
    have "cand False s0"
      using cand_Run_setup [OF c(1)] assms by (simp add: s0_def)
    from Run_sync_noncandidate [OF this, of env]
    have "(\<forall>e \<in> set t3. \<not> is_promotion e) \<and>
          (Lease_Promote (Lease (Config (mc s))) \<and> EvSelectReady \<in> set t3
             \<longrightarrow> Log LogSkipAutoPromote \<in> set t3)"
      by (simp add: cfg t3_def)
    with q1 q2 e1 show ?thesis
      by (auto simp: t executed_append)
  next
    case d
    then have t: "fst (Run env s) = t1 @ t2 @ t3 @ t4"
      by (simp add: Run_go t1_def t2_def t3_def t4_def s0_def)
    have n: "cand False s0"
      using cand_Run_setup [OF d(1)] assms by (simp add: s0_def)
    have "\<forall>x \<in> set (executed t4).
            \<exists>config \<in> set (Exec (Config (mc s))). \<not> IfCandidate config \<and>
               shellwords_Parse env (Cmd config) = Inr (fst x # snd x)"
      using Run_start_origin [OF n, of env] by (simp add: t4_def cfg)
    moreover from Run_sync_noncandidate [OF n, of env]
    have "(\<forall>e \<in> set t3. \<not> is_promotion e) \<and>
          (Lease_Promote (Lease (Config (mc s))) \<and> EvSelectReady \<in> set t3
             \<longrightarrow> Log LogSkipAutoPromote \<in> set t3)"
      by (simp add: cfg t3_def)
    ultimately show ?thesis
      using q1 q2 q4 e1 by (auto simp: t executed_append)
  qed
  then show ?thesis
    using execCmds_from_skip [of s1 st config env name args n i rest] by blast
qed

theorem noncandidate_skips_witness:
  "\<not> Lease_Candidate (Lease (Config (mc (fresh replica_config)))) \<and>
   Lease_Promote (Lease (Config (mc (fresh replica_config)))) \<and>
   filter is_promotion (fst (Run calm_env (fresh replica_config))) = [] \<and>
   Log LogSkipAutoPromote \<in> set (fst (Run calm_env (fresh replica_config))) \<and>
   executed (fst (Run calm_env (fresh replica_config))) = [(''app'', [])] \<and>
   fst (execCmds_from calm_env 2 0 (Exec replica_config) (stored replica_config))
     = Log (LogSkipCommand ''migrate'' [])
       # fst (execCmds_from calm_env 2 1 (tl (Exec replica_config)) (stored replica_config))"
proof -
  have nc: "\<not> Lease_Candidate (Lease (Config (mc (fresh replica_config))))"
    by (simp add: fresh_Config replica_config_def)
  have pr: "Lease_Promote (Lease (Config (mc (fresh replica_config))))"
    by (simp add: fresh_Config replica_config_def)
  have rd: "EvSelectReady \<in> set (fst (Run calm_env (fresh replica_config)))"
    by (simp add: Run_replica_trace)
  have ex: "executed (fst (Run calm_env (fresh replica_config))) = [(''app'', [])]"
    by (simp add: Run_replica_trace)
  have st: "Store (mc (stored replica_config)) = Some
      ((NewStore ''/var/lib/litefs'' False)\<lparr>store_Compress := True\<rparr>)"
    by (simp add: store_stored replica_config_def NewStore_def)
  have lp: "execCmds_from calm_env 2 0
              (\<lparr>Cmd = ''migrate'', IfCandidate = True\<rparr> # [\<lparr>Cmd = ''app'', IfCandidate = False\<rparr>])
              (stored replica_config) =
            (case execCmds_from calm_env 2 (Suc 0) [\<lparr>Cmd = ''app'', IfCandidate = False\<rparr>]
                    (stored replica_config) of
               (t, s2, r) \<Rightarrow> (Log (LogSkipCommand ''migrate'' []) # t, s2, r))"
    using noncandidate_skips [where s = "fresh replica_config" and env = calm_env
        and ?s1.0 = "stored replica_config"
        and st = "(NewStore ''/var/lib/litefs'' False)\<lparr>store_Compress := True\<rparr>"
        and config = "\<lparr>Cmd = ''migrate'', IfCandidate = True\<rparr>" and name = "''migrate''"
        and args = "[]" and n = 2 and i = 0 and rest = "[\<lparr>Cmd = ''app'', IfCandidate = False\<rparr>]",
        OF nc]
    by (simp add: st Candidate_def NewStore_def calm_env_def)
  have "fst (execCmds_from calm_env 2 0 (Exec replica_config) (stored replica_config))
     = Log (LogSkipCommand ''migrate'' [])
       # fst (execCmds_from calm_env 2 1 (tl (Exec replica_config)) (stored replica_config))"
    using lp by (simp add: replica_config_def split: prod.splits)
  moreover have "filter is_promotion (fst (Run calm_env (fresh replica_config))) = [] \<and>
      Log LogSkipAutoPromote \<in> set (fst (Run calm_env (fresh replica_config)))"
    using noncandidate_skips [OF nc, of calm_env] pr rd by (simp add: filter_empty_conv)
  ultimately show ?thesis
    using nc pr ex by simp
qed

end
